theory Spec2Isabelle
  imports Complex_Main "HOL-Library.Sublist"
begin


section \<open>JavaScript strings\<close>

text \<open>
  A string is its sequence of code units. The model covers the code units below 256
  (ASCII and the Latin-1 supplement), which a \<^typ>\<open>char\<close> holds; \<^term>\<open>of_char c\<close> is
  the code unit.
\<close>

text \<open>
  White space and line terminators of ECMAScript in that range: TAB, LF, VT, FF, CR,
  SP and NBSP. \<open>String.prototype.trim\<close> and the conversion of a string to a number
  strip them at both ends.
\<close>

definition isWhiteSpace :: "char \<Rightarrow> bool" where
  "isWhiteSpace c = (of_char c \<in> {9, 10, 11, 12, 13, 32, 160 :: nat})"

definition trim :: "string \<Rightarrow> string" where
  "trim s = rev (dropWhile isWhiteSpace (rev (dropWhile isWhiteSpace s)))"

text \<open>
  \<open>String.prototype.toLowerCase\<close>: in this range the letters with a lower-case form are
  A-Z and U+00C0-U+00DE without U+00D7; the lower-case form is 32 code units above.
\<close>

definition lowerChar :: "char \<Rightarrow> char" where
  "lowerChar c =
     (let n = (of_char c :: nat)
      in if (65 \<le> n \<and> n \<le> 90) \<or> (192 \<le> n \<and> n \<le> 222 \<and> n \<noteq> 215)
         then char_of (n + 32) else c)"

definition toLowerCase :: "string \<Rightarrow> string" where
  "toLowerCase s = map lowerChar s"

text \<open>\<open>s.includes(q)\<close>: \<open>q\<close> occurs in \<open>s\<close> as a contiguous run of code units.\<close>

fun str_includes :: "string \<Rightarrow> string \<Rightarrow> bool" where
  "str_includes [] q = (q = [])"
| "str_includes (c # cs) q = (prefix q (c # cs) \<or> str_includes cs q)"

text \<open>
  \<open>s.split(/[,;]+/)\<close>: the pieces between the maximal runs of separators, an empty
  piece before a leading run and after a trailing one included; the empty string
  splits into one empty piece. \<open>split_piece\<close> reads a piece (collected in reverse),
  \<open>split_run\<close> skips the rest of a run of separators.
\<close>

definition isTagSeparator :: "char \<Rightarrow> bool" where
  "isTagSeparator c = (c = CHR '','' \<or> c = CHR '';'')"

fun split_piece :: "string \<Rightarrow> string \<Rightarrow> string list"
  and split_run :: "string \<Rightarrow> string list" where
  "split_piece acc [] = [rev acc]"
| "split_piece acc (c # cs) =
     (if isTagSeparator c then rev acc # split_run cs else split_piece (c # acc) cs)"
| "split_run [] = [[]]"
| "split_run (c # cs) =
     (if isTagSeparator c then split_run cs else split_piece [c] cs)"

definition split_tags :: "string \<Rightarrow> string list" where
  "split_tags s = split_piece [] s"

text \<open>\<open>xs.join(sep)\<close>.\<close>

fun join :: "string \<Rightarrow> string list \<Rightarrow> string" where
  "join sep [] = []"
| "join sep [x] = x"
| "join sep (x # y # ys) = x @ sep @ join sep (y # ys)"

section \<open>JavaScript numbers\<close>

text \<open>
  A number is NaN, an infinity, or a finite double; every finite double is a rational.
  The sign of zero is not kept: nothing in the page tells the zeros apart.
\<close>

datatype jsnum = NaN | PosInf | NegInf | Fin rat

definition isFinite :: "jsnum \<Rightarrow> bool" where
  "isFinite x = (case x of Fin _ \<Rightarrow> True | _ \<Rightarrow> False)"

text \<open>\<open>x >= y\<close> and \<open>x <= y\<close> on numbers: false as soon as one side is NaN.\<close>

fun num_le :: "jsnum \<Rightarrow> jsnum \<Rightarrow> bool" where
  "num_le NaN _ = False"
| "num_le _ NaN = False"
| "num_le NegInf _ = True"
| "num_le _ PosInf = True"
| "num_le PosInf _ = False"
| "num_le _ NegInf = False"
| "num_le (Fin a) (Fin b) = (a \<le> b)"

definition num_ge :: "jsnum \<Rightarrow> jsnum \<Rightarrow> bool" where
  "num_ge x y = num_le y x"

text \<open>
  \<open>Math.round\<close>: the integer closest to the argument, the larger one at a tie, that is
  the floor of the argument plus one half; NaN and the infinities are returned as they
  are.
\<close>

definition Math_round :: "jsnum \<Rightarrow> jsnum" where
  "Math_round x = (case x of Fin q \<Rightarrow> Fin (of_int \<lfloor>q + 1 / 2\<rfloor>) | _ \<Rightarrow> x)"

subsection \<open>Rounding a rational to the nearest double\<close>

text \<open>The number of binary digits of a natural number.\<close>

fun bitlen :: "nat \<Rightarrow> nat" where
  "bitlen n = (if n = 0 then 0 else Suc (bitlen (n div 2)))"

declare bitlen.simps [simp del]

definition pow2 :: "int \<Rightarrow> rat" where
  "pow2 e = (if 0 \<le> e then 2 ^ nat e else 1 / 2 ^ nat (- e))"

text \<open>For \<open>a > 0\<close>, the exponent \<open>e\<close> with \<open>2 ^ e \<le> a < 2 ^ (e + 1)\<close>.\<close>

definition ilog2 :: "rat \<Rightarrow> int" where
  "ilog2 a =
     (if 1 \<le> a then int (bitlen (nat \<lfloor>a\<rfloor>)) - 1
      else - int (bitlen (nat \<lceil>1 / a\<rceil> - 1)))"

definition round_half_even :: "rat \<Rightarrow> int" where
  "round_half_even x =
     (let f = \<lfloor>x\<rfloor>; d = x - of_int f
      in if d < 1 / 2 then f else if 1 / 2 < d then f + 1
         else if even f then f else f + 1)"

text \<open>
  IEEE 754 binary64, round to nearest, ties to even: 53 significant bits, the least
  exponent of a unit in the last place is -1074 (subnormals), and a result of
  magnitude \<open>2 ^ 1024\<close> or more is an infinity.
\<close>

definition to_double :: "rat \<Rightarrow> jsnum" where
  "to_double q =
     (if q = 0 then Fin 0
      else let a = \<bar>q\<bar>;
               u = max (ilog2 a - 52) (- 1074);
               v = of_int (round_half_even (a / pow2 u)) * pow2 u
           in if pow2 1024 \<le> v then (if q < 0 then NegInf else PosInf)
              else Fin (if q < 0 then - v else v))"

subsection \<open>Converting a string to a number\<close>

text \<open>
  \<open>Number(s)\<close> for a string \<open>s\<close> (StringToNumber): white space is stripped; the empty
  string is 0; a decimal literal (optional sign, digits with an optional fraction and
  exponent, or \<open>Infinity\<close>) or an unsigned binary, octal or hexadecimal integer literal
  is its value, rounded to a double; anything else is NaN.
\<close>

definition isDigit :: "char \<Rightarrow> bool" where
  "isDigit c = (48 \<le> (of_char c :: nat) \<and> (of_char c :: nat) \<le> 57)"

definition digitValue :: "char \<Rightarrow> nat option" where
  "digitValue c =
     (let n = (of_char c :: nat)
      in if 48 \<le> n \<and> n \<le> 57 then Some (n - 48)
         else if 97 \<le> n \<and> n \<le> 102 then Some (n - 87)
         else if 65 \<le> n \<and> n \<le> 70 then Some (n - 55)
         else None)"

text \<open>The value of a non-empty run of digits of base \<open>b\<close>; \<open>None\<close> for anything else.\<close>

fun digitsValue :: "nat \<Rightarrow> nat \<Rightarrow> string \<Rightarrow> nat option" where
  "digitsValue b acc [] = Some acc"
| "digitsValue b acc (c # cs) =
     (case digitValue c of
        None \<Rightarrow> None
      | Some d \<Rightarrow> if d < b then digitsValue b (b * acc + d) cs else None)"

definition parseDigits :: "nat \<Rightarrow> string \<Rightarrow> nat option" where
  "parseDigits b s = (if s = [] then None else digitsValue b 0 s)"

definition pow10 :: "int \<Rightarrow> rat" where
  "pow10 e = (if 0 \<le> e then 10 ^ nat e else 1 / 10 ^ nat (- e))"

text \<open>The exponent part, if any: \<open>e\<close> or \<open>E\<close>, an optional sign, digits.\<close>

definition parseExponent :: "string \<Rightarrow> int option" where
  "parseExponent s =
     (case s of
        [] \<Rightarrow> Some 0
      | c # cs \<Rightarrow>
          if c = CHR ''e'' \<or> c = CHR ''E'' then
            (case cs of
               [] \<Rightarrow> None
             | d # ds \<Rightarrow>
                 if d = CHR ''-'' then map_option (\<lambda>n. - int n) (parseDigits 10 ds)
                 else if d = CHR ''+'' then map_option int (parseDigits 10 ds)
                 else map_option int (parseDigits 10 cs))
          else None)"

text \<open>
  An unsigned decimal literal other than \<open>Infinity\<close>: digits, then optionally a dot and
  digits, with a digit on at least one side of the dot, then optionally an exponent.
\<close>

definition parseUnsignedDecimal :: "string \<Rightarrow> rat option" where
  "parseUnsignedDecimal s =
     (let ip = takeWhile isDigit s;
          r = dropWhile isDigit s;
          fp = (case r of [] \<Rightarrow> [] | c # cs \<Rightarrow> if c = CHR ''.'' then takeWhile isDigit cs else []);
          r' = (case r of [] \<Rightarrow> [] | c # cs \<Rightarrow> if c = CHR ''.'' then dropWhile isDigit cs else r)
      in if ip = [] \<and> fp = [] then None
         else (case parseExponent r' of
                 None \<Rightarrow> None
               | Some e \<Rightarrow>
                   Some ((of_nat (the (digitsValue 10 0 ip))
                          + of_nat (the (digitsValue 10 0 fp)) / 10 ^ length fp) * pow10 e)))"

definition parseUnsigned :: "string \<Rightarrow> jsnum" where
  "parseUnsigned s =
     (if s = ''Infinity'' then PosInf
      else (case parseUnsignedDecimal s of None \<Rightarrow> NaN | Some q \<Rightarrow> to_double q))"

definition negate :: "jsnum \<Rightarrow> jsnum" where
  "negate x = (case x of NaN \<Rightarrow> NaN | PosInf \<Rightarrow> NegInf | NegInf \<Rightarrow> PosInf | Fin q \<Rightarrow> Fin (- q))"

definition parseNonDecimal :: "string \<Rightarrow> jsnum option" where
  "parseNonDecimal s =
     (case s of
        z # x # ds \<Rightarrow>
          if z = CHR ''0'' \<and> (x = CHR ''x'' \<or> x = CHR ''X'') then
            Some (case parseDigits 16 ds of None \<Rightarrow> NaN | Some n \<Rightarrow> to_double (of_nat n))
          else if z = CHR ''0'' \<and> (x = CHR ''o'' \<or> x = CHR ''O'') then
            Some (case parseDigits 8 ds of None \<Rightarrow> NaN | Some n \<Rightarrow> to_double (of_nat n))
          else if z = CHR ''0'' \<and> (x = CHR ''b'' \<or> x = CHR ''B'') then
            Some (case parseDigits 2 ds of None \<Rightarrow> NaN | Some n \<Rightarrow> to_double (of_nat n))
          else None
      | _ \<Rightarrow> None)"

definition StringToNumber :: "string \<Rightarrow> jsnum" where
  "StringToNumber s =
     (let t = trim s
      in case t of
           [] \<Rightarrow> Fin 0
         | c # cs \<Rightarrow>
             (case parseNonDecimal t of
                Some n \<Rightarrow> n
              | None \<Rightarrow>
                  if c = CHR ''-'' then negate (parseUnsigned cs)
                  else if c = CHR ''+'' then parseUnsigned cs
                  else parseUnsigned t))"

section \<open>Values of a parsed CSV record\<close>

text \<open>
  Papa.parse in header mode (without dynamic typing) gives one object per line, from
  the header's names to the texts of the fields. A record is modelled as the lookup of
  its properties: \<open>r k = None\<close> when \<open>r.k\<close> is \<open>undefined\<close>, and \<open>Some s\<close> when it is the
  string \<open>s\<close>.
\<close>

type_synonym csv_record = "string \<Rightarrow> string option"

datatype js_error = TypeError | ReferenceError | HttpError nat | NetworkError

text \<open>Sequencing of computations that may throw.\<close>

definition js_bind :: "js_error + 'a \<Rightarrow> ('a \<Rightarrow> js_error + 'b) \<Rightarrow> js_error + 'b" where
  "js_bind m f = (case m of Inl e \<Rightarrow> Inl e | Inr v \<Rightarrow> f v)"

text \<open>Truthiness: \<open>undefined\<close> and the empty string are falsy, other strings truthy.\<close>

definition truthy :: "string option \<Rightarrow> bool" where
  "truthy v = (case v of None \<Rightarrow> False | Some s \<Rightarrow> s \<noteq> [])"

text \<open>\<open>a || b\<close> and \<open>a ?? b\<close>.\<close>

definition js_or :: "string option \<Rightarrow> string option \<Rightarrow> string option" where
  "js_or a b = (if truthy a then a else b)"

definition nullish :: "string option \<Rightarrow> string option \<Rightarrow> string option" where
  "nullish a b = (case a of None \<Rightarrow> b | Some _ \<Rightarrow> a)"

text \<open>
  A method call on a value: \<open>v.trim()\<close> and \<open>v.toString()\<close> throw a TypeError when \<open>v\<close> is
  \<open>undefined\<close>.
\<close>

definition call_trim :: "string option \<Rightarrow> js_error + string" where
  "call_trim v = (case v of None \<Rightarrow> Inl TypeError | Some s \<Rightarrow> Inr (trim s))"

definition call_toString :: "string option \<Rightarrow> js_error + string" where
  "call_toString v = (case v of None \<Rightarrow> Inl TypeError | Some s \<Rightarrow> Inr s)"

text \<open>\<open>Number(v)\<close>: NaN for \<open>undefined\<close>.\<close>

definition Number :: "string option \<Rightarrow> jsnum" where
  "Number v = (case v of None \<Rightarrow> NaN | Some s \<Rightarrow> StringToNumber s)"

section \<open>The row normalizer\<close>

text \<open>
  \<open>dateObj\<close> is the time value of the Date object (milliseconds since the epoch), or
  \<open>None\<close> for \<open>null\<close>; a score is a number or \<open>None\<close> for \<open>null\<close>.
\<close>

record EpisodeRecord =
  series :: string
  title :: string
  dateRaw :: string
  dateObj :: "int option"
  tags :: "string list"
  scoreGen :: "jsnum option"
  scoreAdv :: "jsnum option"
  summary :: string
  summaryGeneral :: string
  summaryAdvanced :: string
  url :: string

text \<open>
  \<open>parseDateSafe\<close> (lines 14-17). What \<open>new Date(v)\<close> reads from a string is left to the
  implementation outside the ISO format, so \<open>Date.parse\<close> is a parameter: the time
  value, or \<open>None\<close> for NaN (an invalid date).
\<close>

definition parseDateSafe :: "(string \<Rightarrow> int option) \<Rightarrow> string \<Rightarrow> int option" where
  "parseDateSafe Date_parse v = (case Date_parse v of None \<Rightarrow> None | Some t \<Rightarrow> Some t)"

text \<open>Lines 89-90: a score is kept when finite and within 1 to 5, and rounded.\<close>

definition score :: "jsnum \<Rightarrow> jsnum option" where
  "score sg =
     (if isFinite sg \<and> num_ge sg (Fin 1) \<and> num_le sg (Fin 5) then Some (Math_round sg)
      else None)"

text \<open>\<open>normalizeRow\<close> (lines 79-98).\<close>

definition normalizeRow :: "(string \<Rightarrow> int option) \<Rightarrow> csv_record \<Rightarrow> js_error + EpisodeRecord" where
  "normalizeRow Date_parse r =
     js_bind (call_trim (js_or (js_or (js_or (r ''series_name'') (r ''Series'')) (r ''series'')) (Some ''''))) (\<lambda>series'.
     js_bind (call_trim (js_or (js_or (r ''episode_title'') (r ''title'')) (Some ''''))) (\<lambda>title'.
     js_bind (call_trim (js_or (js_or (js_or (r ''pub_date_iso'') (r ''date'')) (r ''published'')) (Some ''''))) (\<lambda>dateRaw'.
     let dateObj' = parseDateSafe Date_parse dateRaw' in
     js_bind (call_toString (js_or (js_or (r ''tags'') (r ''Tags'')) (Some ''''))) (\<lambda>tagsStr.
     let tags' = filter (\<lambda>t. t \<noteq> []) (map trim (split_tags tagsStr));
         sg = Number (nullish (nullish (r ''score_general'') (r ''general'')) (r ''general_score''));
         sa = Number (nullish (nullish (r ''score_advanced'') (r ''advanced'')) (r ''advanced_score''));
         scoreGen' = score sg;
         scoreAdv' = score sa in
     js_bind (call_trim (js_or (js_or (r ''summary_general'') (r ''summaryGeneral'')) (Some ''''))) (\<lambda>summaryGeneral'.
     js_bind (call_trim (js_or (js_or (r ''summary_advanced'') (r ''summaryAdvanced'')) (Some ''''))) (\<lambda>summaryAdvanced'.
     js_bind (call_trim (js_or (Some summaryGeneral')
                (js_or (js_or (js_or (r ''summary'') (r ''Summary'')) (r ''description'')) (Some '''')))) (\<lambda>summary'.
     js_bind (call_trim (js_or (js_or (js_or (js_or (r ''url'') (r ''link'')) (r ''href'')) (r ''episode_url'')) (Some ''''))) (\<lambda>url'.
     Inr \<lparr> series = series', title = title', dateRaw = dateRaw', dateObj = dateObj',
           tags = tags', scoreGen = scoreGen', scoreAdv = scoreAdv', summary = summary',
           summaryGeneral = summaryGeneral', summaryAdvanced = summaryAdvanced',
           url = url' \<rparr>))))))))"

text \<open>
  An instance of \<open>Date.parse\<close> for evaluating examples: the date-only ISO form
  \<open>YYYY-MM-DD\<close> of a date of the calendar is midnight UTC of that day, as ECMAScript
  prescribes; this instance takes every other string as unparseable.
\<close>

definition days_from_civil :: "int \<Rightarrow> int \<Rightarrow> int \<Rightarrow> int" where
  "days_from_civil y m d =
     (let y' = (if m \<le> 2 then y - 1 else y);
          era = y' div 400;
          yoe = y' - era * 400;
          doy = (153 * (if 2 < m then m - 3 else m + 9) + 2) div 5 + d - 1;
          doe = yoe * 365 + yoe div 4 - yoe div 100 + doy
      in era * 146097 + doe - 719468)"

definition days_in_month :: "int \<Rightarrow> int \<Rightarrow> int" where
  "days_in_month y m =
     (if m = 2 then (if y mod 4 = 0 \<and> (y mod 100 \<noteq> 0 \<or> y mod 400 = 0) then 29 else 28)
      else if m = 4 \<or> m = 6 \<or> m = 9 \<or> m = 11 then 30 else 31)"

definition iso_Date_parse :: "string \<Rightarrow> int option" where
  "iso_Date_parse s =
     (if length s = 10 \<and> s ! 4 = CHR ''-'' \<and> s ! 7 = CHR ''-'' then
        (case (parseDigits 10 (take 4 s), parseDigits 10 (take 2 (drop 5 s)),
               parseDigits 10 (drop 8 s)) of
           (Some y, Some m, Some d) \<Rightarrow>
             if 1 \<le> m \<and> m \<le> 12 \<and> 1 \<le> d \<and> int d \<le> days_in_month (int y) (int m)
             then Some (days_from_civil (int y) (int m) (int d) * 86400000)
             else None
         | _ \<Rightarrow> None)
      else None)"

text \<open>The string that \<open>v || ""\<close> evaluates to.\<close>

definition or_empty :: "string option \<Rightarrow> string" where
  "or_empty v = (case v of None \<Rightarrow> [] | Some s \<Rightarrow> s)"

section \<open>Loading the episodes\<close>

text \<open>
  \<open>SAMPLE_DATA\<close> (lines 8-12). In the template literal every line but the last ends with
  the escape \<open>\n\<close> followed by the line break of the source, that is, with two line feeds.
\<close>

definition SAMPLE_DATA :: string where
  \<open>SAMPLE_DATA =
     ''series_name,episode_title,pub_date_iso,tags,score_general,score_advanced,summary,url''
     @ [CHR 0x0A, CHR 0x0A] @
     ''Cleaning Up,Nuclear's Next Wave,2025-07-26,"nuclear; policy",4,5,"A conversation about advanced nuclear and timelines.",https://example.com/ep1''
     @ [CHR 0x0A, CHR 0x0A] @
     ''Climate One,Insurance in the Hot Zone,2025-08-10,"insurance, risk",5,4,"Why insurers are retreating; what it means for homeowners.",https://example.com/ep2''
     @ [CHR 0x0A, CHR 0x0A] @
     ''Volts,Grid nerd out: HVDC,2025-08-20,"grid, hvdc, transmission",5,5,"A deep dive on HVDC for a renewables-heavy grid.",https://example.com/ep3''
     @ [CHR 0x0A, CHR 0x0A] @
     ''Drilled,Litigation Update: 2025,2025-08-05,"litigation; attribution",3,5,"Roundup of major climate lawsuits and what to watch.",https://example.com/ep4''\<close>

text \<open>
  The records of \<open>SAMPLE_DATA\<close>: what a CSV parser in header mode that skips empty lines
  gives for it, one record for each line after the header, from the eight names of the
  header to the texts of the fields (quoted fields without their quotes).
\<close>

definition SAMPLE_RECORDS :: "csv_record list" where
  "SAMPLE_RECORDS =
     [map_of [(''series_name'', ''Cleaning Up''), (''episode_title'', ''Nuclear's Next Wave''),
              (''pub_date_iso'', ''2025-07-26''), (''tags'', ''nuclear; policy''),
              (''score_general'', ''4''), (''score_advanced'', ''5''),
              (''summary'', ''A conversation about advanced nuclear and timelines.''),
              (''url'', ''https://example.com/ep1'')],
      map_of [(''series_name'', ''Climate One''), (''episode_title'', ''Insurance in the Hot Zone''),
              (''pub_date_iso'', ''2025-08-10''), (''tags'', ''insurance, risk''),
              (''score_general'', ''5''), (''score_advanced'', ''4''),
              (''summary'', ''Why insurers are retreating; what it means for homeowners.''),
              (''url'', ''https://example.com/ep2'')],
      map_of [(''series_name'', ''Volts''), (''episode_title'', ''Grid nerd out: HVDC''),
              (''pub_date_iso'', ''2025-08-20''), (''tags'', ''grid, hvdc, transmission''),
              (''score_general'', ''5''), (''score_advanced'', ''5''),
              (''summary'', ''A deep dive on HVDC for a renewables-heavy grid.''),
              (''url'', ''https://example.com/ep3'')],
      map_of [(''series_name'', ''Drilled''), (''episode_title'', ''Litigation Update: 2025''),
              (''pub_date_iso'', ''2025-08-05''), (''tags'', ''litigation; attribution''),
              (''score_general'', ''3''), (''score_advanced'', ''5''),
              (''summary'', ''Roundup of major climate lawsuits and what to watch.''),
              (''url'', ''https://example.com/ep4'')]]"

text \<open>The state of the page that \<open>load\<close> writes (lines 33-35).\<close>

record page_state =
  rows :: "EpisodeRecord list"
  loading :: bool
  error :: string

definition initial_state :: page_state where
  "initial_state = \<lparr> rows = [], loading = True, error = [] \<rparr>"

text \<open>
  How the fetch of \<open>/episodes.csv\<close> settles: the promise is rejected (a network error), or
  it is fulfilled with a response that has a status and a body; \<open>res.ok\<close> holds for the
  statuses 200 to 299.
\<close>

datatype fetch_outcome = Rejected | Responded nat string

definition response_ok :: "nat \<Rightarrow> bool" where
  "response_ok status = (200 \<le> status \<and> status \<le> 299)"

text \<open>\<open>xs.map(f)\<close> with a callback that may throw: the first exception ends the call.\<close>

fun map_rows :: "('a \<Rightarrow> js_error + 'b) \<Rightarrow> 'a list \<Rightarrow> js_error + 'b list" where
  "map_rows f [] = Inr []"
| "map_rows f (x # xs) = js_bind (f x) (\<lambda>y. js_bind (map_rows f xs) (\<lambda>ys. Inr (y # ys)))"

text \<open>
  The callback of the filter of lines 54 and 65. \<open>s && s.length\<close> is \<open>s\<close> itself when \<open>s\<close> is
  the empty string (falsy), and the length otherwise, which is truthy unless 0.
\<close>

definition and_length :: "string \<Rightarrow> bool" where
  "and_length s = (if s = [] then False else length s \<noteq> 0)"

definition has_identity :: "EpisodeRecord \<Rightarrow> bool" where
  "has_identity r = (and_length (series r) \<or> and_length (title r) \<or> and_length (url r))"

text \<open>
  Lines 50-54 and 61-65: parse, normalize every record, drop the rows without identifying
  information. The parser (Papa.parse, a library) is a parameter.
\<close>

definition parse_and_normalize ::
  "(string \<Rightarrow> csv_record list) \<Rightarrow> (string \<Rightarrow> int option) \<Rightarrow> string \<Rightarrow> js_error + EpisodeRecord list" where
  "parse_and_normalize Papa_parse Date_parse text' =
     js_bind (map_rows (normalizeRow Date_parse) (Papa_parse text'))
       (\<lambda>normalized. Inr (filter has_identity normalized))"

text \<open>
  The try block (lines 47-58): the value it computes for \<open>setRows\<close>, or the exception that
  leaves it.
\<close>

definition try_block ::
  "(string \<Rightarrow> csv_record list) \<Rightarrow> (string \<Rightarrow> int option) \<Rightarrow> fetch_outcome \<Rightarrow> js_error + EpisodeRecord list" where
  "try_block Papa_parse Date_parse outcome =
     (case outcome of
        Rejected \<Rightarrow> Inl NetworkError
      | Responded status body \<Rightarrow>
          if \<not> response_ok status then Inl (HttpError status)
          else parse_and_normalize Papa_parse Date_parse body)"

text \<open>
  The catch block (lines 59-71) reads the identifier \<open>text\<close>. The string bindings in scope
  there are \<open>SAMPLE_DATA\<close> of the module and \<open>error\<close> and \<open>search\<close> of the component (both
  empty at the first render, whose closure \<open>load\<close> runs in); \<open>text\<close> and \<open>res\<close> are \<open>const\<close>
  bindings of the try block (lines 47 and 49) and end with it. Reading an identifier
  that has no binding throws a ReferenceError.
\<close>

definition catch_scope :: "string \<Rightarrow> string option" where
  "catch_scope = map_of [(''SAMPLE_DATA'', SAMPLE_DATA), (''error'', []), (''search'', [])]"

definition resolve :: "(string \<Rightarrow> string option) \<Rightarrow> string \<Rightarrow> js_error + string" where
  "resolve scope name = (case scope name of None \<Rightarrow> Inl ReferenceError | Some v \<Rightarrow> Inr v)"

text \<open>
  The result of the catch block: the exception that leaves it, if any (the promise of
  \<open>load\<close> is then rejected, and nothing handles it), and the state of the page.
\<close>

definition catch_block ::
  "(string \<Rightarrow> csv_record list) \<Rightarrow> (string \<Rightarrow> int option) \<Rightarrow> bool \<Rightarrow> page_state \<Rightarrow> js_error option \<times> page_state" where
  "catch_block Papa_parse Date_parse cancelled s =
     (case js_bind (resolve catch_scope ''text'') (parse_and_normalize Papa_parse Date_parse) of
        Inl e \<Rightarrow> (Some e, s)
      | Inr normalized \<Rightarrow>
          (None,
           if \<not> cancelled
           then s\<lparr> rows := normalized, loading := False,
                   error := ''Using built-in sample data (episodes.csv not found).'' \<rparr>
           else s))"

text \<open>\<open>load\<close> (lines 45-72).\<close>

definition load ::
  "(string \<Rightarrow> csv_record list) \<Rightarrow> (string \<Rightarrow> int option) \<Rightarrow> fetch_outcome \<Rightarrow> bool \<Rightarrow> page_state \<Rightarrow> js_error option \<times> page_state" where
  "load Papa_parse Date_parse outcome cancelled s =
     (case try_block Papa_parse Date_parse outcome of
        Inr normalized \<Rightarrow>
          (None, if \<not> cancelled then s\<lparr> rows := normalized, loading := False \<rparr> else s)
      | Inl e \<Rightarrow> catch_block Papa_parse Date_parse cancelled s)"


section \<open>Derived views\<close>

text \<open>The filter state of the component (lines 37-41, without \<open>maxResults\<close>).\<close>

record filter_state =
  selectedSeries :: "string list"
  selectedTags :: "string list"
  last30Only :: bool
  search :: string

text \<open>
  \<open>Array.prototype.sort\<close> with a comparator. ECMAScript fixes the result when the
  comparator is consistent (a total preorder): the elements in ascending order, equal
  ones in their original order. The model inserts each element, from the last to the
  first, before the first element that it does not come after; this is that result.
  For an inconsistent comparator the order is left to the implementation.
\<close>

fun insert_sorted :: "('a \<Rightarrow> 'a \<Rightarrow> int) \<Rightarrow> 'a \<Rightarrow> 'a list \<Rightarrow> 'a list" where
  "insert_sorted cmp x [] = [x]"
| "insert_sorted cmp x (y # ys) =
     (if cmp x y \<le> 0 then x # y # ys else y # insert_sorted cmp x ys)"

definition js_sort :: "('a \<Rightarrow> 'a \<Rightarrow> int) \<Rightarrow> 'a list \<Rightarrow> 'a list" where
  "js_sort cmp xs = foldr (insert_sorted cmp) xs []"

text \<open>
  The comparator of lines 124-131. \<open>localeCompare\<close> depends on the locale and the
  collation data of the browser, so it is a parameter: a negative number, zero or a
  positive number. Time values are integers (milliseconds), so the sign of \<open>bt - at\<close> is
  that of the difference of the integers.
\<close>

definition compare_rows :: "(string \<Rightarrow> string \<Rightarrow> int) \<Rightarrow> EpisodeRecord \<Rightarrow> EpisodeRecord \<Rightarrow> int" where
  "compare_rows localeCompare a b =
     (let at' = (case dateObj a of Some t \<Rightarrow> t | None \<Rightarrow> 0);
          bt = (case dateObj b of Some t \<Rightarrow> t | None \<Rightarrow> 0)
      in if bt \<noteq> at' then bt - at'
         else let s = localeCompare (series a) (series b)
              in if s \<noteq> 0 then s else localeCompare (title a) (title b))"

text \<open>The callback of the search filter (lines 117-121), for the lower-cased query.\<close>

definition matches_search :: "string \<Rightarrow> EpisodeRecord \<Rightarrow> bool" where
  "matches_search q r =
     (str_includes (toLowerCase (title r)) q \<or>
      str_includes (toLowerCase (series r)) q \<or>
      str_includes (toLowerCase (join '','' (tags r))) q \<or>
      str_includes (toLowerCase (summary r)) q)"

text \<open>
  \<open>filtered\<close> (lines 109-132). \<open>cutoff\<close> is the time value of the cutoff date, computed once
  per load (lines 103-107).
\<close>

definition filtered ::
  "(string \<Rightarrow> string \<Rightarrow> int) \<Rightarrow> int \<Rightarrow> filter_state \<Rightarrow> EpisodeRecord list \<Rightarrow> EpisodeRecord list" where
  "filtered localeCompare cutoff fs rows' =
     (let out1 = (if selectedSeries fs \<noteq> []
                  then filter (\<lambda>r. series r \<in> set (selectedSeries fs)) rows' else rows');
          out2 = (if selectedTags fs \<noteq> []
                  then filter (\<lambda>r. list_ex (\<lambda>t. t \<in> set (selectedTags fs)) (tags r)) out1 else out1);
          out3 = (if last30Only fs
                  then filter (\<lambda>r. case dateObj r of None \<Rightarrow> False | Some t \<Rightarrow> cutoff \<le> t) out2
                  else out2);
          out4 = (if trim (search fs) \<noteq> []
                  then filter (matches_search (toLowerCase (trim (search fs)))) out3 else out3)
      in js_sort (compare_rows localeCompare) out4)"

text \<open>
  \<open>xs.slice(0, end)\<close>: the end is made an integer (NaN is 0, a fraction is cut off), a
  negative end counts from the end of the list, and the result stays within the list.
\<close>

definition slice_from_0 :: "'a list \<Rightarrow> jsnum \<Rightarrow> 'a list" where
  "slice_from_0 xs end' =
     (let len = int (length xs)
      in case end' of
           NaN \<Rightarrow> []
         | NegInf \<Rightarrow> []
         | PosInf \<Rightarrow> xs
         | Fin q \<Rightarrow>
             (let relEnd = (if q < 0 then \<lceil>q\<rceil> else \<lfloor>q\<rfloor>);
                  final = (if relEnd < 0 then max (len + relEnd) 0 else min relEnd len)
              in take (nat final) xs))"

text \<open>\<open>limited\<close> (line 134). \<open>!maxResults\<close> holds for 0 and NaN.\<close>

definition limited :: "EpisodeRecord list \<Rightarrow> jsnum \<Rightarrow> EpisodeRecord list" where
  "limited filtered' maxResults =
     (if (maxResults = Fin 0 \<or> maxResults = NaN) \<or> maxResults = Fin (- 1) then filtered'
      else slice_from_0 filtered' maxResults)"

text \<open>
  What the component shows (lines 136-183): the loading notice while \<open>loading\<close> holds;
  after that the banner, when \<open>error\<close> is not empty, and the cards of the limited list.
\<close>

datatype rendering = LoadingNotice | Page "string option" "EpisodeRecord list"

definition render ::
  "(string \<Rightarrow> string \<Rightarrow> int) \<Rightarrow> int \<Rightarrow> filter_state \<Rightarrow> jsnum \<Rightarrow> page_state \<Rightarrow> rendering" where
  "render localeCompare cutoff fs maxResults s =
     (if loading s then LoadingNotice
      else Page (if error s \<noteq> [] then Some (error s) else None)
             (limited (filtered localeCompare cutoff fs (rows s)) maxResults))"

section \<open>The multi-select widget\<close>

text \<open>
  The widget with its owner: \<open>selected\<close> is the owner's state, passed as the \<open>selected\<close>
  prop and set by \<open>onChange\<close> (lines 150 and 154); \<open>menu_open\<close> (\<open>open\<close> in the source),
  \<open>query\<close> and \<open>tempSelected\<close> are the widget's own state (lines 251-253).
\<close>

record multiselect =
  selected :: "string list"
  menu_open :: bool
  query :: string
  tempSelected :: "string list"

text \<open>
  \<open>new Set(xs)\<close> keeps the elements in the order of their first insertion;
  \<open>Array.from\<close> lists them in that order.
\<close>

definition Set_add :: "'a list \<Rightarrow> 'a \<Rightarrow> 'a list" where
  "Set_add st x = (if x \<in> set st then st else st @ [x])"

definition Set_delete :: "'a list \<Rightarrow> 'a \<Rightarrow> 'a list" where
  "Set_delete st x = removeAll x st"

definition new_Set :: "'a list \<Rightarrow> 'a list" where
  "new_Set xs = foldl Set_add [] xs"

text \<open>The handlers (lines 257-260 and 284-299).\<close>

definition openMenu :: "multiselect \<Rightarrow> multiselect" where
  "openMenu s = s\<lparr> tempSelected := selected s, menu_open := True \<rparr>"

definition toggle :: "string \<Rightarrow> multiselect \<Rightarrow> multiselect" where
  "toggle item s =
     (let st = new_Set (tempSelected s);
          st' = (if item \<in> set st then Set_delete st item else Set_add st item)
      in s\<lparr> tempSelected := st' \<rparr>)"

definition applyChanges :: "bool \<Rightarrow> multiselect \<Rightarrow> multiselect" where
  "applyChanges closeAfter s =
     (let s' = s\<lparr> selected := tempSelected s \<rparr>
      in if closeAfter then s'\<lparr> menu_open := False \<rparr> else s')"

definition clearAll :: "bool \<Rightarrow> multiselect \<Rightarrow> multiselect" where
  "clearAll closeAfter s =
     (let s' = s\<lparr> tempSelected := [], selected := [] \<rparr>
      in if closeAfter then s'\<lparr> menu_open := False \<rparr> else s')"

text \<open>
  The events of the widget. The trigger button is always there (lines 303-313); the
  listeners for a click outside and for the keys are on the document from mount to
  unmount (lines 263-277); the filter input, the checkboxes and the Clear, Apply and
  Done buttons exist only while the menu is open (line 315).
\<close>

datatype ms_event =
    ClickTrigger
  | ClickOutside
  | PressKey string
  | TypeQuery string
  | ToggleOption string
  | ClickClear
  | ClickApply
  | ClickDone

definition ms_step :: "ms_event \<Rightarrow> multiselect \<Rightarrow> multiselect" where
  "ms_step ev s =
     (case ev of
        ClickTrigger \<Rightarrow> if menu_open s then s\<lparr> menu_open := False \<rparr> else openMenu s
      | ClickOutside \<Rightarrow> s\<lparr> menu_open := False \<rparr>
      | PressKey k \<Rightarrow> if k = ''Escape'' then s\<lparr> menu_open := False \<rparr> else s
      | TypeQuery q \<Rightarrow> if menu_open s then s\<lparr> query := q \<rparr> else s
      | ToggleOption item \<Rightarrow> if menu_open s then toggle item s else s
      | ClickClear \<Rightarrow> if menu_open s then clearAll False s else s
      | ClickApply \<Rightarrow> if menu_open s then applyChanges False s else s
      | ClickDone \<Rightarrow> if menu_open s then applyChanges True s else s)"

text \<open>A sequence of events, the first one first.\<close>

definition ms_run :: "ms_event list \<Rightarrow> multiselect \<Rightarrow> multiselect" where
  "ms_run evs s = foldl (\<lambda>s' ev. ms_step ev s') s evs"

text \<open>The events that call \<open>onChange\<close>.\<close>

definition commits :: "ms_event \<Rightarrow> bool" where
  "commits ev = (ev = ClickClear \<or> ev = ClickApply \<or> ev = ClickDone)"


section \<open>Notions used to state the properties\<close>

text \<open>
  A consistent comparator: the signs of \<open>cmp a b\<close> and \<open>cmp b a\<close> are opposite, and "not
  after" is transitive. This is what ECMAScript asks of the comparator of a sort, and
  what a collation (\<open>localeCompare\<close> in a fixed locale) provides.
\<close>

definition consistent_comparator :: "('a \<Rightarrow> 'a \<Rightarrow> int) \<Rightarrow> bool" where
  "consistent_comparator cmp =
     ((\<forall>a b. (cmp a b < 0) = (0 < cmp b a)) \<and>
      (\<forall>a b c. cmp a b \<le> 0 \<and> cmp b c \<le> 0 \<longrightarrow> cmp a c \<le> 0))"

text \<open>
  An instance of \<open>localeCompare\<close> for evaluating examples: the order of the code units,
  a shorter string before its extensions.
\<close>

fun codeunit_compare :: "string \<Rightarrow> string \<Rightarrow> int" where
  "codeunit_compare [] [] = 0"
| "codeunit_compare [] (y # ys) = - 1"
| "codeunit_compare (x # xs) [] = 1"
| "codeunit_compare (x # xs) (y # ys) =
     (if (of_char x :: nat) < of_char y then - 1
      else if (of_char y :: nat) < of_char x then 1
      else codeunit_compare xs ys)"

text \<open>The date key of the sort: the time value of the date, and 0 for a null date.\<close>

definition sort_time :: "EpisodeRecord \<Rightarrow> int" where
  "sort_time r = (case dateObj r of None \<Rightarrow> 0 | Some t \<Rightarrow> t)"

text \<open>
  The order of two rows by date descending, then series ascending, then title
  ascending, where \<open>localeCompare\<close> orders the texts.
\<close>

definition row_order :: "(string \<Rightarrow> string \<Rightarrow> int) \<Rightarrow> EpisodeRecord \<Rightarrow> EpisodeRecord \<Rightarrow> bool" where
  "row_order localeCompare a b =
     (sort_time b < sort_time a \<or>
      (sort_time a = sort_time b \<and>
       (localeCompare (series a) (series b) < 0 \<or>
        (localeCompare (series a) (series b) = 0 \<and> localeCompare (title a) (title b) \<le> 0))))"

text \<open>
  \<open>q\<close> occurs in \<open>s\<close> up to the case of the letters: some contiguous part of \<open>s\<close> has the
  lower-case form of \<open>q\<close>.
\<close>

definition contains_ignoring_case :: "string \<Rightarrow> string \<Rightarrow> bool" where
  "contains_ignoring_case s q =
     (\<exists>u v w. s = u @ v @ w \<and> toLowerCase v = toLowerCase q)"

text \<open>No filter set, and a search text alone.\<close>

definition no_filter :: filter_state where
  "no_filter = \<lparr> selectedSeries = [], selectedTags = [], last30Only = False, search = [] \<rparr>"

text \<open>A row passes the filters that are set (lines 111-122).\<close>

definition passes_filters :: "int \<Rightarrow> filter_state \<Rightarrow> EpisodeRecord \<Rightarrow> bool" where
  "passes_filters cutoff fs r =
     ((selectedSeries fs \<noteq> [] \<longrightarrow> series r \<in> set (selectedSeries fs)) \<and>
      (selectedTags fs \<noteq> [] \<longrightarrow> (\<exists>t\<in>set (tags r). t \<in> set (selectedTags fs))) \<and>
      (last30Only fs \<longrightarrow> (\<exists>t. dateObj r = Some t \<and> cutoff \<le> t)) \<and>
      (trim (search fs) \<noteq> [] \<longrightarrow> matches_search (toLowerCase (trim (search fs))) r))"

text \<open>
  The normalized rows of the sample records, for a given \<open>Date.parse\<close> (lemma
  \<open>sample_normalized\<close> below).
\<close>

definition sample_rows :: "(string \<Rightarrow> int option) \<Rightarrow> EpisodeRecord list" where
  "sample_rows Date_parse =
     [\<lparr> series = ''Cleaning Up'', title = ''Nuclear's Next Wave'', dateRaw = ''2025-07-26'',
         dateObj = Date_parse ''2025-07-26'', tags = [''nuclear'', ''policy''],
         scoreGen = Some (Fin 4), scoreAdv = Some (Fin 5),
         summary = ''A conversation about advanced nuclear and timelines.'',
         summaryGeneral = [], summaryAdvanced = [], url = ''https://example.com/ep1'' \<rparr>,
      \<lparr> series = ''Climate One'', title = ''Insurance in the Hot Zone'', dateRaw = ''2025-08-10'',
         dateObj = Date_parse ''2025-08-10'', tags = [''insurance'', ''risk''],
         scoreGen = Some (Fin 5), scoreAdv = Some (Fin 4),
         summary = ''Why insurers are retreating; what it means for homeowners.'',
         summaryGeneral = [], summaryAdvanced = [], url = ''https://example.com/ep2'' \<rparr>,
      \<lparr> series = ''Volts'', title = ''Grid nerd out: HVDC'', dateRaw = ''2025-08-20'',
         dateObj = Date_parse ''2025-08-20'', tags = [''grid'', ''hvdc'', ''transmission''],
         scoreGen = Some (Fin 5), scoreAdv = Some (Fin 5),
         summary = ''A deep dive on HVDC for a renewables-heavy grid.'',
         summaryGeneral = [], summaryAdvanced = [], url = ''https://example.com/ep3'' \<rparr>,
      \<lparr> series = ''Drilled'', title = ''Litigation Update: 2025'', dateRaw = ''2025-08-05'',
         dateObj = Date_parse ''2025-08-05'', tags = [''litigation'', ''attribution''],
         scoreGen = Some (Fin 3), scoreAdv = Some (Fin 5),
         summary = ''Roundup of major climate lawsuits and what to watch.'',
         summaryGeneral = [], summaryAdvanced = [], url = ''https://example.com/ep4'' \<rparr>]"

text \<open>
  Two rows for an example: an episode of 20 July 1969 and an episode without a date, as
  \<open>normalizeRow\<close> gives them (lemma \<open>example_rows_normalized\<close> below).
\<close>

definition moon_row :: EpisodeRecord where
  "moon_row =
     \<lparr> series = ''Archive'', title = ''Moon landing'', dateRaw = ''1969-07-20'',
       dateObj = Some (- 14256000000), tags = [], scoreGen = None, scoreAdv = None,
       summary = [], summaryGeneral = [], summaryAdvanced = [], url = [] \<rparr>"

definition undated_row :: EpisodeRecord where
  "undated_row =
     \<lparr> series = ''Archive'', title = ''Undated'', dateRaw = [], dateObj = None, tags = [],
       scoreGen = None, scoreAdv = None, summary = [], summaryGeneral = [],
       summaryAdvanced = [], url = [] \<rparr>"

text \<open>
  Two states of the widget and its owner that agree on everything but a provisional
  selection that is not on display (the menu is closed).
\<close>

definition agree_but_hidden :: "multiselect \<Rightarrow> multiselect \<Rightarrow> bool" where
  "agree_but_hidden s1 s2 =
     (selected s1 = selected s2 \<and> menu_open s1 = menu_open s2 \<and> query s1 = query s2 \<and>
      (menu_open s1 \<longrightarrow> tempSelected s1 = tempSelected s2))"

text \<open>The widget at mount, closed, over an owner with a given selection.\<close>

definition mounted :: "string list \<Rightarrow> multiselect" where
  "mounted sel = \<lparr> selected = sel, menu_open = False, query = [], tempSelected = [] \<rparr>"


section \<open>Properties of the number conversion\<close>

lemma floor_rat_numeral:
  "\<lfloor>numeral a / numeral b :: rat\<rfloor> = numeral a div numeral b"
  by (metis floor_divide_of_int_eq of_int_numeral)

lemma ceiling_rat_numeral:
  "\<lceil>numeral a / numeral b :: rat\<rceil> = - (- numeral a div numeral b)"
  by (metis ceiling_divide_eq_div of_int_numeral)

lemma bitlen_numeral:
  "bitlen 0 = 0" "bitlen (Suc 0) = Suc 0" "bitlen 1 = 1" "bitlen (numeral Num.One) = 1"
  "bitlen (numeral (Num.Bit0 k)) = Suc (bitlen (numeral k))"
  "bitlen (numeral (Num.Bit1 k)) = Suc (bitlen (numeral k))"
  by (subst bitlen.simps, simp)+

text \<open>The equations that evaluate the conversion of a given string.\<close>

lemmas str_eval = trim_def isWhiteSpace_def toLowerCase_def lowerChar_def char_of_def
  split_tags_def isTagSeparator_def

lemmas num_eval = StringToNumber_def parseNonDecimal_def parseUnsigned_def
  parseUnsignedDecimal_def parseExponent_def parseDigits_def digitValue_def isDigit_def
  trim_def isWhiteSpace_def to_double_def ilog2_def pow2_def pow10_def round_half_even_def
  Let_def negate_def floor_rat_numeral ceiling_rat_numeral bitlen_numeral Number_def
  score_def isFinite_def num_ge_def Math_round_def

text \<open>
  The rounding at work: one tenth, the two neighbours of an odd multiple of the unit in
  the last place (ties to even), and a negative value.
\<close>

lemma to_double_examples:
  "to_double (1 / 10) = Fin (3602879701896397 / 36028797018963968)"
  "to_double 9007199254740993 = Fin 9007199254740992"
  "to_double 9007199254740995 = Fin 9007199254740996"
  "to_double (- (23 / 5)) = Fin (- (2589569785738035 / 562949953421312))"
  by (simp_all add: num_eval)

lemma Number_undefined: "Number None = NaN"
  by (simp add: Number_def)

lemma Number_empty: "Number (Some []) = Fin 0"
  by (simp add: num_eval)

lemma Number_examples:
  "Number (Some ''0'') = Fin 0" "Number (Some ''6'') = Fin 6" "Number (Some ''abc'') = NaN"
  "Number (Some ''4.6'') = Fin (2589569785738035 / 562949953421312)"
  by (simp_all add: num_eval)

lemma score_cases:
  "score x =
     (case x of
        Fin q \<Rightarrow> if 1 \<le> q \<and> q \<le> 5 then Some (Fin (of_int \<lfloor>q + 1 / 2\<rfloor>)) else None
      | _ \<Rightarrow> None)"
  by (cases x) (simp_all add: score_def isFinite_def num_ge_def Math_round_def)

lemma score_examples:
  "score (Number (Some ''0'')) = None" "score (Number (Some ''6'')) = None"
  "score (Number (Some ''abc'')) = None" "score (Number (Some ''4.6'')) = Some (Fin 5)"
  "score (Number (Some [])) = None" "score (Number None) = None"
  by (simp_all add: Number_examples Number_empty Number_undefined score_cases floor_rat_numeral)

lemma round_in_range:
  fixes q :: rat
  assumes "1 \<le> q" "q \<le> 5"
  shows "1 \<le> \<lfloor>q + 1 / 2\<rfloor>" "\<lfloor>q + 1 / 2\<rfloor> \<le> 5"
proof -
  from assms(1) have "(1::rat) \<le> q + 1 / 2" by simp
  then show "1 \<le> \<lfloor>q + 1 / 2\<rfloor>" by (simp add: le_floor_iff)
  from assms(2) have "q + 1 / 2 < 6" by simp
  then have "\<lfloor>q + 1 / 2\<rfloor> < 6" by (simp add: floor_less_iff)
  then show "\<lfloor>q + 1 / 2\<rfloor> \<le> 5" by simp
qed

lemma round_nearest:
  fixes q :: rat
  shows "\<bar>of_int \<lfloor>q + 1 / 2\<rfloor> - q\<bar> \<le> 1 / 2"
proof -
  have "of_int \<lfloor>q + 1 / 2\<rfloor> \<le> q + 1 / 2" by (rule of_int_floor_le)
  moreover have "q + 1 / 2 < of_int \<lfloor>q + 1 / 2\<rfloor> + 1" by linarith
  ultimately show ?thesis by linarith
qed

lemma score_range: "score x = None \<or> (\<exists>k\<in>{1..5}. score x = Some (Fin (of_int k)))"
proof (cases x)
  case (Fin q)
  show ?thesis
  proof (cases "1 \<le> q \<and> q \<le> 5")
    case True
    then have "\<lfloor>q + 1 / 2\<rfloor> \<in> {1..5}"
      using round_in_range [of q] by simp
    moreover have "score x = Some (Fin (of_int \<lfloor>q + 1 / 2\<rfloor>))"
      using True Fin by (simp add: score_cases)
    ultimately show ?thesis by blast
  next
    case False
    then show ?thesis using Fin by (simp add: score_cases)
  qed
qed (simp_all add: score_cases)

section \<open>Properties of the row normalizer\<close>

lemma js_or_empty: "js_or v (Some []) = Some (or_empty v)"
  by (cases v) (auto simp: js_or_def truthy_def or_empty_def)

text \<open>Every call of \<open>normalizeRow\<close> returns, with these fields.\<close>

lemma normalizeRow_eq:
  "normalizeRow Date_parse r = Inr
     \<lparr> series = trim (or_empty (js_or (js_or (r ''series_name'') (r ''Series'')) (r ''series''))),
       title = trim (or_empty (js_or (r ''episode_title'') (r ''title''))),
       dateRaw = trim (or_empty (js_or (js_or (r ''pub_date_iso'') (r ''date'')) (r ''published''))),
       dateObj = Date_parse (trim (or_empty (js_or (js_or (r ''pub_date_iso'') (r ''date'')) (r ''published'')))),
       tags = filter (\<lambda>t. t \<noteq> []) (map trim (split_tags (or_empty (js_or (r ''tags'') (r ''Tags''))))),
       scoreGen = score (Number (nullish (nullish (r ''score_general'') (r ''general'')) (r ''general_score''))),
       scoreAdv = score (Number (nullish (nullish (r ''score_advanced'') (r ''advanced'')) (r ''advanced_score''))),
       summary = trim (or_empty (js_or (Some (trim (or_empty (js_or (r ''summary_general'') (r ''summaryGeneral'')))))
                    (Some (or_empty (js_or (js_or (r ''summary'') (r ''Summary'')) (r ''description'')))))),
       summaryGeneral = trim (or_empty (js_or (r ''summary_general'') (r ''summaryGeneral''))),
       summaryAdvanced = trim (or_empty (js_or (r ''summary_advanced'') (r ''summaryAdvanced''))),
       url = trim (or_empty (js_or (js_or (js_or (r ''url'') (r ''link'')) (r ''href'')) (r ''episode_url''))) \<rparr>"
  unfolding normalizeRow_def js_or_empty Let_def parseDateSafe_def
  apply (simp add: call_trim_def call_toString_def js_bind_def option.case_eq_if)
  apply (simp add: js_or_def truthy_def or_empty_def split: option.splits)
  done

lemma trim_Nil: "trim [] = []"
  by (simp add: trim_def)

lemma js_or_None: "js_or None b = b" "js_or (Some []) b = b"
  by (simp_all add: js_or_def truthy_def)

lemma nullish_simps: "nullish None b = b" "nullish (Some s) b = Some s"
  by (simp_all add: nullish_def)

text \<open>
  C4. Each normalized score is null or an integer from 1 to 5: the raw value is made a
  number, kept only when it is finite and within 1 to 5, and rounded to the nearest
  integer; the raw values 0, 6 and "abc" give null, and 4.6 gives 5.
\<close>

theorem score_fields_null_or_1_to_5:
  assumes "normalizeRow Date_parse r = Inr e"
  shows "(scoreGen e = None \<or> (\<exists>k\<in>{1..5}. scoreGen e = Some (Fin (of_int k)))) \<and>
         (scoreAdv e = None \<or> (\<exists>k\<in>{1..5}. scoreAdv e = Some (Fin (of_int k)))) \<and>
         scoreGen e =
           (case Number (nullish (nullish (r ''score_general'') (r ''general'')) (r ''general_score'')) of
              Fin q \<Rightarrow> if 1 \<le> q \<and> q \<le> 5 then Some (Fin (of_int \<lfloor>q + 1 / 2\<rfloor>)) else None
            | _ \<Rightarrow> None) \<and>
         scoreAdv e =
           (case Number (nullish (nullish (r ''score_advanced'') (r ''advanced'')) (r ''advanced_score'')) of
              Fin q \<Rightarrow> if 1 \<le> q \<and> q \<le> 5 then Some (Fin (of_int \<lfloor>q + 1 / 2\<rfloor>)) else None
            | _ \<Rightarrow> None) \<and>
         (\<forall>q :: rat. \<bar>of_int \<lfloor>q + 1 / 2\<rfloor> - q\<bar> \<le> 1 / 2) \<and>
         (r ''score_general'' = Some ''0'' \<longrightarrow> scoreGen e = None) \<and>
         (r ''score_general'' = Some ''6'' \<longrightarrow> scoreGen e = None) \<and>
         (r ''score_general'' = Some ''abc'' \<longrightarrow> scoreGen e = None) \<and>
         (r ''score_general'' = Some ''4.6'' \<longrightarrow> scoreGen e = Some (Fin 5)) \<and>
         (r ''score_advanced'' = Some ''0'' \<longrightarrow> scoreAdv e = None) \<and>
         (r ''score_advanced'' = Some ''6'' \<longrightarrow> scoreAdv e = None) \<and>
         (r ''score_advanced'' = Some ''abc'' \<longrightarrow> scoreAdv e = None) \<and>
         (r ''score_advanced'' = Some ''4.6'' \<longrightarrow> scoreAdv e = Some (Fin 5))"
proof -
  have g: "scoreGen e = score (Number (nullish (nullish (r ''score_general'') (r ''general'')) (r ''general_score'')))"
    and a: "scoreAdv e = score (Number (nullish (nullish (r ''score_advanced'') (r ''advanced'')) (r ''advanced_score'')))"
    using assms by (auto simp: normalizeRow_eq)
  have 1: "scoreGen e = None \<or> (\<exists>k\<in>{1..5}. scoreGen e = Some (Fin (of_int k)))"
    unfolding g by (rule score_range)
  have 2: "scoreAdv e = None \<or> (\<exists>k\<in>{1..5}. scoreAdv e = Some (Fin (of_int k)))"
    unfolding a by (rule score_range)
  have 3: "r ''score_general'' = Some s \<Longrightarrow> scoreGen e = score (Number (Some s))" for s
    by (simp add: g nullish_simps)
  have 4: "r ''score_advanced'' = Some s \<Longrightarrow> scoreAdv e = score (Number (Some s))" for s
    by (simp add: a nullish_simps)
  show ?thesis
    using 1 2 g a round_nearest 3 4 by (simp add: score_examples flip: score_cases)
qed

theorem score_fields_null_or_1_to_5_witness:
  "\<exists>e. normalizeRow iso_Date_parse (Map.empty(''score_general'' \<mapsto> ''4.6'', ''score_advanced'' \<mapsto> ''abc'')) = Inr e
       \<and> scoreGen e = Some (Fin 5) \<and> scoreAdv e = None"
proof -
  let ?r = "Map.empty(''score_general'' \<mapsto> ''4.6'', ''score_advanced'' \<mapsto> ''abc'')"
  obtain e where e: "normalizeRow iso_Date_parse ?r = Inr e"
    using normalizeRow_eq by blast
  note t = score_fields_null_or_1_to_5 [OF e]
  from t have "?r ''score_general'' = Some ''4.6'' \<longrightarrow> scoreGen e = Some (Fin 5)"
    by blast
  then have g: "scoreGen e = Some (Fin 5)" by simp
  from t have "?r ''score_advanced'' = Some ''abc'' \<longrightarrow> scoreAdv e = None"
    by blast
  then have a: "scoreAdv e = None" by simp
  from e g a show ?thesis by blast
qed

text \<open>
  C8. The row normalizer is total: for every record, whatever keys it lacks and whatever
  its texts and \<open>Date.parse\<close> are, it returns exactly one episode record and does not
  throw. A date that does not parse gives a null date, a score that is not a number a
  null score, and missing text fields and tags the empty string and the empty list.
\<close>

theorem normalizeRow_total:
  "(\<exists>!e. normalizeRow Date_parse r = Inr e) \<and>
   (\<forall>e. normalizeRow Date_parse r = Inr e \<longrightarrow>
      (Date_parse (dateRaw e) = None \<longrightarrow> dateObj e = None) \<and>
      (Number (nullish (nullish (r ''score_general'') (r ''general'')) (r ''general_score'')) = NaN
         \<longrightarrow> scoreGen e = None) \<and>
      (Number (nullish (nullish (r ''score_advanced'') (r ''advanced'')) (r ''advanced_score'')) = NaN
         \<longrightarrow> scoreAdv e = None) \<and>
      (r ''series_name'' = None \<and> r ''Series'' = None \<and> r ''series'' = None \<longrightarrow> series e = []) \<and>
      (r ''episode_title'' = None \<and> r ''title'' = None \<longrightarrow> title e = []) \<and>
      (r ''pub_date_iso'' = None \<and> r ''date'' = None \<and> r ''published'' = None \<longrightarrow> dateRaw e = []) \<and>
      (r ''tags'' = None \<and> r ''Tags'' = None \<longrightarrow> tags e = []) \<and>
      (r ''summary_general'' = None \<and> r ''summaryGeneral'' = None \<longrightarrow> summaryGeneral e = []) \<and>
      (r ''summary_advanced'' = None \<and> r ''summaryAdvanced'' = None \<longrightarrow> summaryAdvanced e = []) \<and>
      (r ''summary_general'' = None \<and> r ''summaryGeneral'' = None \<and> r ''summary'' = None
         \<and> r ''Summary'' = None \<and> r ''description'' = None \<longrightarrow> summary e = []) \<and>
      (r ''url'' = None \<and> r ''link'' = None \<and> r ''href'' = None \<and> r ''episode_url'' = None
         \<longrightarrow> url e = []))"
proof (intro conjI allI impI)
  show "\<exists>!e. normalizeRow Date_parse r = Inr e"
    by (simp add: normalizeRow_eq)
next
  fix e
  assume e: "normalizeRow Date_parse r = Inr e"
  note f = e [unfolded normalizeRow_eq, simplified, symmetric]
  show "dateObj e = None" if "Date_parse (dateRaw e) = None"
    using that by (subst (asm) f, subst f) simp
  show "scoreGen e = None"
    if "Number (nullish (nullish (r ''score_general'') (r ''general'')) (r ''general_score'')) = NaN"
    using that by (subst f) (simp add: score_cases)
  show "scoreAdv e = None"
    if "Number (nullish (nullish (r ''score_advanced'') (r ''advanced'')) (r ''advanced_score'')) = NaN"
    using that by (subst f) (simp add: score_cases)
  show "series e = []" if "r ''series_name'' = None \<and> r ''Series'' = None \<and> r ''series'' = None"
    using that by (subst f) (simp add: js_or_None or_empty_def trim_Nil)
  show "title e = []" if "r ''episode_title'' = None \<and> r ''title'' = None"
    using that by (subst f) (simp add: js_or_None or_empty_def trim_Nil)
  show "dateRaw e = []" if "r ''pub_date_iso'' = None \<and> r ''date'' = None \<and> r ''published'' = None"
    using that by (subst f) (simp add: js_or_None or_empty_def trim_Nil)
  show "tags e = []" if "r ''tags'' = None \<and> r ''Tags'' = None"
    using that by (subst f) (simp add: js_or_None or_empty_def trim_Nil split_tags_def)
  show "summaryGeneral e = []" if "r ''summary_general'' = None \<and> r ''summaryGeneral'' = None"
    using that by (subst f) (simp add: js_or_None or_empty_def trim_Nil)
  show "summaryAdvanced e = []" if "r ''summary_advanced'' = None \<and> r ''summaryAdvanced'' = None"
    using that by (subst f) (simp add: js_or_None or_empty_def trim_Nil)
  show "summary e = []"
    if "r ''summary_general'' = None \<and> r ''summaryGeneral'' = None \<and> r ''summary'' = None
         \<and> r ''Summary'' = None \<and> r ''description'' = None"
    using that by (subst f) (simp add: js_or_None or_empty_def trim_Nil)
  show "url e = []"
    if "r ''url'' = None \<and> r ''link'' = None \<and> r ''href'' = None \<and> r ''episode_url'' = None"
    using that by (subst f) (simp add: js_or_None or_empty_def trim_Nil)
qed

theorem normalizeRow_total_witness:
  "\<exists>e. normalizeRow iso_Date_parse
          (Map.empty(''episode_title'' \<mapsto> '' Hello '', ''pub_date_iso'' \<mapsto> ''soon'',
                     ''score_general'' \<mapsto> ''abc'')) = Inr e
       \<and> title e = ''Hello'' \<and> dateRaw e = ''soon'' \<and> dateObj e = None
       \<and> scoreGen e = None \<and> scoreAdv e = None \<and> series e = [] \<and> tags e = []
       \<and> summary e = [] \<and> summaryGeneral e = [] \<and> summaryAdvanced e = [] \<and> url e = []"
proof -
  let ?r = "Map.empty(''episode_title'' \<mapsto> '' Hello '', ''pub_date_iso'' \<mapsto> ''soon'',
                      ''score_general'' \<mapsto> ''abc'')"
  note t = normalizeRow_total [of iso_Date_parse ?r]
  from t [THEN conjunct1] obtain e where e: "normalizeRow iso_Date_parse ?r = Inr e"
    by (rule ex1E)
  note d = t [THEN conjunct2, rule_format, OF e]
  note f = e [unfolded normalizeRow_eq, simplified, symmetric]
  have ti: "title e = ''Hello''"
    by (subst f) (simp add: js_or_def truthy_def or_empty_def str_eval)
  have dr: "dateRaw e = ''soon''"
    by (subst f) (simp add: js_or_def truthy_def or_empty_def str_eval)
  have "iso_Date_parse (dateRaw e) = None"
    by (simp add: dr iso_Date_parse_def)
  moreover have "Number (nullish (nullish (?r ''score_general'') (?r ''general'')) (?r ''general_score'')) = NaN"
    by (simp add: nullish_simps Number_examples)
  moreover have "Number (nullish (nullish (?r ''score_advanced'') (?r ''advanced'')) (?r ''advanced_score'')) = NaN"
    by (simp add: nullish_simps Number_undefined)
  ultimately have "dateObj e = None \<and> scoreGen e = None \<and> scoreAdv e = None \<and> series e = []
      \<and> tags e = [] \<and> summary e = [] \<and> summaryGeneral e = [] \<and> summaryAdvanced e = [] \<and> url e = []"
    using d by simp
  with e ti dr show ?thesis by blast
qed

text \<open>
  C10. The aliases of a score are tried with \<open>??\<close> and those of a text field with \<open>||\<close>:
  when the first score key is present and holds the empty string, the score is null
  whatever the later aliases hold, while an empty series, title or url falls through to
  the next alias. A first score key that is absent does fall through.
\<close>

theorem score_alias_stops_at_empty_string:
  assumes "normalizeRow Date_parse r = Inr e"
  shows "(r ''score_general'' = Some [] \<longrightarrow> scoreGen e = None) \<and>
         (r ''score_advanced'' = Some [] \<longrightarrow> scoreAdv e = None) \<and>
         (r ''score_general'' = None \<longrightarrow>
            scoreGen e = score (Number (nullish (r ''general'') (r ''general_score'')))) \<and>
         (r ''score_advanced'' = None \<longrightarrow>
            scoreAdv e = score (Number (nullish (r ''advanced'') (r ''advanced_score'')))) \<and>
         (r ''series_name'' = Some [] \<longrightarrow>
            series e = trim (or_empty (js_or (r ''Series'') (r ''series'')))) \<and>
         (r ''episode_title'' = Some [] \<longrightarrow> title e = trim (or_empty (r ''title''))) \<and>
         (r ''url'' = Some [] \<longrightarrow>
            url e = trim (or_empty (js_or (js_or (r ''link'') (r ''href'')) (r ''episode_url''))))"
proof -
  note f = assms [unfolded normalizeRow_eq, simplified, symmetric]
  show ?thesis
    by (subst f)+ (simp add: nullish_simps js_or_None score_examples)
qed

theorem score_alias_stops_at_empty_string_witness:
  "(\<exists>e. normalizeRow iso_Date_parse
           (Map.empty(''score_general'' \<mapsto> '''', ''general'' \<mapsto> ''4'',
                      ''series_name'' \<mapsto> '''', ''Series'' \<mapsto> ''Volts'')) = Inr e
        \<and> scoreGen e = None \<and> series e = ''Volts'') \<and>
   (\<exists>e. normalizeRow iso_Date_parse
           (Map.empty(''general'' \<mapsto> ''4'', ''Series'' \<mapsto> ''Volts'')) = Inr e
        \<and> scoreGen e = Some (Fin 4) \<and> series e = ''Volts'')"
proof
  let ?r = "Map.empty(''score_general'' \<mapsto> '''', ''general'' \<mapsto> ''4'',
                      ''series_name'' \<mapsto> '''', ''Series'' \<mapsto> ''Volts'')"
  obtain e where e: "normalizeRow iso_Date_parse ?r = Inr e"
    using normalizeRow_eq by blast
  note t = score_alias_stops_at_empty_string [OF e]
  from t have "?r ''score_general'' = Some [] \<longrightarrow> scoreGen e = None" by blast
  then have g: "scoreGen e = None" by simp
  from t have "?r ''series_name'' = Some [] \<longrightarrow>
      series e = trim (or_empty (js_or (?r ''Series'') (?r ''series'')))" by blast
  then have s: "series e = ''Volts''"
    by (simp add: js_or_def truthy_def or_empty_def str_eval)
  from e g s show "\<exists>e. normalizeRow iso_Date_parse ?r = Inr e \<and> scoreGen e = None \<and> series e = ''Volts''"
    by blast
next
  let ?r = "Map.empty(''general'' \<mapsto> ''4'', ''Series'' \<mapsto> ''Volts'')"
  obtain e where e: "normalizeRow iso_Date_parse ?r = Inr e"
    using normalizeRow_eq by blast
  note t = score_alias_stops_at_empty_string [OF e]
  note f = e [unfolded normalizeRow_eq, simplified, symmetric]
  from t have "?r ''score_general'' = None \<longrightarrow>
      scoreGen e = score (Number (nullish (?r ''general'') (?r ''general_score'')))" by blast
  then have g: "scoreGen e = Some (Fin 4)"
    by (simp add: nullish_simps num_eval)
  have s: "series e = ''Volts''"
    by (subst f) (simp add: js_or_def truthy_def or_empty_def str_eval)
  from e g s show "\<exists>e. normalizeRow iso_Date_parse ?r = Inr e \<and> scoreGen e = Some (Fin 4) \<and> series e = ''Volts''"
    by blast
qed


section \<open>Properties of the loader\<close>

lemma map_rows_normalizeRow:
  "\<exists>es. map_rows (normalizeRow Date_parse) rs = Inr es \<and> length es = length rs \<and>
        (\<forall>i<length rs. normalizeRow Date_parse (rs ! i) = Inr (es ! i))"
proof (induction rs)
  case Nil
  show ?case by simp
next
  case (Cons r rs)
  then obtain es where es: "map_rows (normalizeRow Date_parse) rs = Inr es"
    "length es = length rs" "\<forall>i<length rs. normalizeRow Date_parse (rs ! i) = Inr (es ! i)"
    by blast
  obtain e where e: "normalizeRow Date_parse r = Inr e"
    using normalizeRow_eq by blast
  have "map_rows (normalizeRow Date_parse) (r # rs) = Inr (e # es)"
    by (simp add: e es(1) js_bind_def)
  moreover have "\<forall>i<length (r # rs). normalizeRow Date_parse ((r # rs) ! i) = Inr ((e # es) ! i)"
    using e es(3) by (auto simp: nth_Cons split: nat.splits)
  ultimately show ?case using es(2) by auto
qed

lemma and_length_iff: "and_length s = (s \<noteq> [])"
  by (simp add: and_length_def)

lemma has_identity_iff: "has_identity e = (series e \<noteq> [] \<or> title e \<noteq> [] \<or> url e \<noteq> [])"
  by (simp add: has_identity_def and_length_iff)

lemma resolve_text: "resolve catch_scope ''text'' = Inl ReferenceError"
  by (simp add: resolve_def catch_scope_def)

lemma catch_block_throws:
  "catch_block Papa_parse Date_parse cancelled s = (Some ReferenceError, s)"
  by (simp add: catch_block_def resolve_text js_bind_def)

lemma load_failure:
  "try_block Papa_parse Date_parse outcome = Inl e \<Longrightarrow>
   load Papa_parse Date_parse outcome cancelled s = (Some ReferenceError, s)"
  by (simp add: load_def catch_block_throws)

text \<open>
  C1 (the code departs from the claim). When the fetch fails, by a rejection or by a
  status outside 200 to 299, the catch block throws a ReferenceError at its first use of
  \<open>text\<close>: \<open>load\<close> ends with that exception, the state of the page is left as it was, no
  row and no banner is set, and the page keeps showing the loading notice.
\<close>

theorem load_fetch_failure_throws:
  "load Papa_parse Date_parse Rejected False initial_state = (Some ReferenceError, initial_state) \<and>
   load Papa_parse Date_parse (Responded 404 body) False initial_state
     = (Some ReferenceError, initial_state) \<and>
   rows initial_state = [] \<and> error initial_state = [] \<and>
   render localeCompare cutoff fs maxResults
     (snd (load Papa_parse Date_parse (Responded 404 body) False initial_state)) = LoadingNotice"
proof -
  have 1: "try_block Papa_parse Date_parse Rejected = Inl NetworkError"
    by (simp add: try_block_def)
  have 2: "try_block Papa_parse Date_parse (Responded 404 body) = Inl (HttpError 404)"
    by (simp add: try_block_def response_ok_def)
  show ?thesis
    by (simp add: load_failure [OF 1] load_failure [OF 2] render_def initial_state_def)
qed

text \<open>
  C5. When the fetch succeeds, the rows of the page are the normalized records of the
  parsed rows, in their order, without those whose series, title and url are all empty
  after trimming: a normalized record is among the rows if and only if one of the
  three is not empty.
\<close>

theorem ghost_rows_excluded:
  assumes "response_ok status"
  shows "\<exists>es. map_rows (normalizeRow Date_parse) (Papa_parse body) = Inr es \<and>
           length es = length (Papa_parse body) \<and>
           (\<forall>i<length es.
              normalizeRow Date_parse (Papa_parse body ! i) = Inr (es ! i) \<and>
              series (es ! i) =
                trim (or_empty (js_or (js_or ((Papa_parse body ! i) ''series_name'')
                  ((Papa_parse body ! i) ''Series'')) ((Papa_parse body ! i) ''series''))) \<and>
              title (es ! i) =
                trim (or_empty (js_or ((Papa_parse body ! i) ''episode_title'')
                  ((Papa_parse body ! i) ''title''))) \<and>
              url (es ! i) =
                trim (or_empty (js_or (js_or (js_or ((Papa_parse body ! i) ''url'')
                  ((Papa_parse body ! i) ''link'')) ((Papa_parse body ! i) ''href''))
                  ((Papa_parse body ! i) ''episode_url'')))) \<and>
           load Papa_parse Date_parse (Responded status body) False s =
             (None, s\<lparr> rows := filter (\<lambda>e. series e \<noteq> [] \<or> title e \<noteq> [] \<or> url e \<noteq> []) es,
                       loading := False \<rparr>) \<and>
           (\<forall>e\<in>set es.
              e \<in> set (rows (snd (load Papa_parse Date_parse (Responded status body) False s)))
              \<longleftrightarrow> series e \<noteq> [] \<or> title e \<noteq> [] \<or> url e \<noteq> [])"
proof -
  obtain es where es: "map_rows (normalizeRow Date_parse) (Papa_parse body) = Inr es"
    "length es = length (Papa_parse body)"
    "\<forall>i<length (Papa_parse body). normalizeRow Date_parse (Papa_parse body ! i) = Inr (es ! i)"
    using map_rows_normalizeRow by blast
  have fields: "normalizeRow Date_parse (Papa_parse body ! i) = Inr (es ! i) \<and>
      series (es ! i) =
        trim (or_empty (js_or (js_or ((Papa_parse body ! i) ''series_name'')
          ((Papa_parse body ! i) ''Series'')) ((Papa_parse body ! i) ''series''))) \<and>
      title (es ! i) =
        trim (or_empty (js_or ((Papa_parse body ! i) ''episode_title'')
          ((Papa_parse body ! i) ''title''))) \<and>
      url (es ! i) =
        trim (or_empty (js_or (js_or (js_or ((Papa_parse body ! i) ''url'')
          ((Papa_parse body ! i) ''link'')) ((Papa_parse body ! i) ''href''))
          ((Papa_parse body ! i) ''episode_url'')))"
    if "i < length es" for i
  proof -
    have n: "normalizeRow Date_parse (Papa_parse body ! i) = Inr (es ! i)"
      using that es(2,3) by simp
    note f = n [unfolded normalizeRow_eq, simplified, symmetric]
    show ?thesis
      by (rule conjI [OF n]) (subst f, simp)+
  qed
  have l: "load Papa_parse Date_parse (Responded status body) False s =
      (None, s\<lparr> rows := filter (\<lambda>e. series e \<noteq> [] \<or> title e \<noteq> [] \<or> url e \<noteq> []) es,
                loading := False \<rparr>)"
  proof -
    have "filter has_identity es = filter (\<lambda>e. series e \<noteq> [] \<or> title e \<noteq> [] \<or> url e \<noteq> []) es"
      by (rule filter_cong) (simp_all add: has_identity_iff)
    then show ?thesis
      using assms
      by (simp add: load_def try_block_def parse_and_normalize_def es(1) js_bind_def)
  qed
  have m: "\<forall>e\<in>set es.
      e \<in> set (rows (snd (load Papa_parse Date_parse (Responded status body) False s)))
      \<longleftrightarrow> series e \<noteq> [] \<or> title e \<noteq> [] \<or> url e \<noteq> []"
    by (simp add: l)
  from es(1,2) fields l m show ?thesis by blast
qed

theorem ghost_rows_excluded_witness:
  "load (\<lambda>_. [Map.empty(''title'' \<mapsto> '' Intro ''), Map.empty(''tags'' \<mapsto> ''a,b''),
               Map.empty(''series'' \<mapsto> ''  '', ''link'' \<mapsto> ''u'')])
        iso_Date_parse (Responded 200 []) False initial_state
   = (None, \<lparr> rows =
        [\<lparr> series = [], title = ''Intro'', dateRaw = [], dateObj = None, tags = [],
            scoreGen = None, scoreAdv = None, summary = [], summaryGeneral = [],
            summaryAdvanced = [], url = [] \<rparr>,
         \<lparr> series = [], title = [], dateRaw = [], dateObj = None, tags = [],
            scoreGen = None, scoreAdv = None, summary = [], summaryGeneral = [],
            summaryAdvanced = [], url = ''u'' \<rparr>],
        loading = False, error = [] \<rparr>)"
proof -
  let ?P = "\<lambda>_ :: string. [Map.empty(''title'' \<mapsto> '' Intro ''), Map.empty(''tags'' \<mapsto> ''a,b''),
               Map.empty(''series'' \<mapsto> ''  '', ''link'' \<mapsto> ''u'')]"
  have ok: "response_ok 200" by (simp add: response_ok_def)
  from ghost_rows_excluded [OF ok, of iso_Date_parse ?P "[]" initial_state]
  obtain es where es: "map_rows (normalizeRow iso_Date_parse) (?P []) = Inr es"
    and l: "load ?P iso_Date_parse (Responded 200 []) False initial_state =
      (None, initial_state\<lparr> rows := filter (\<lambda>e. series e \<noteq> [] \<or> title e \<noteq> [] \<or> url e \<noteq> []) es,
                loading := False \<rparr>)"
    by blast
  have v: "es = [\<lparr> series = [], title = ''Intro'', dateRaw = [], dateObj = None, tags = [],
            scoreGen = None, scoreAdv = None, summary = [], summaryGeneral = [],
            summaryAdvanced = [], url = [] \<rparr>,
         \<lparr> series = [], title = [], dateRaw = [], dateObj = None, tags = [''a'', ''b''],
            scoreGen = None, scoreAdv = None, summary = [], summaryGeneral = [],
            summaryAdvanced = [], url = [] \<rparr>,
         \<lparr> series = [], title = [], dateRaw = [], dateObj = None, tags = [],
            scoreGen = None, scoreAdv = None, summary = [], summaryGeneral = [],
            summaryAdvanced = [], url = ''u'' \<rparr>]"
    using es
    by (simp add: normalizeRow_eq js_bind_def js_or_def truthy_def or_empty_def str_eval
        nullish_simps score_examples iso_Date_parse_def)
  from l show ?thesis
    by (simp add: v initial_state_def)
qed


section \<open>Properties of the sort\<close>

lemma set_insert_sorted: "set (insert_sorted cmp x xs) = insert x (set xs)"
  by (induction xs) auto

lemma set_js_sort: "set (js_sort cmp xs) = set xs"
  by (induction xs) (auto simp: js_sort_def set_insert_sorted)

lemma length_insert_sorted: "length (insert_sorted cmp x xs) = Suc (length xs)"
  by (induction xs) auto

lemma length_js_sort: "length (js_sort cmp xs) = length xs"
  by (induction xs) (auto simp: js_sort_def length_insert_sorted)

lemma consistent_flip:
  "consistent_comparator cmp \<Longrightarrow> 0 < cmp a b \<Longrightarrow> cmp b a \<le> 0"
  unfolding consistent_comparator_def by (metis less_le)

lemma consistent_trans:
  "consistent_comparator cmp \<Longrightarrow> cmp a b \<le> 0 \<Longrightarrow> cmp b c \<le> 0 \<Longrightarrow> cmp a c \<le> 0"
  unfolding consistent_comparator_def by blast

lemma sorted_insert_sorted:
  assumes "consistent_comparator cmp"
  shows "sorted_wrt (\<lambda>a b. cmp a b \<le> 0) xs \<Longrightarrow>
         sorted_wrt (\<lambda>a b. cmp a b \<le> 0) (insert_sorted cmp x xs)"
proof (induction xs)
  case Nil
  show ?case by simp
next
  case (Cons y ys)
  show ?case
  proof (cases "cmp x y \<le> 0")
    case True
    then have "\<forall>z\<in>set ys. cmp x z \<le> 0"
      using Cons.prems consistent_trans [OF assms] by auto
    with True Cons.prems show ?thesis by simp
  next
    case False
    then have "cmp y x \<le> 0"
      using consistent_flip [OF assms] by simp
    with False Cons show ?thesis
      by (auto simp: set_insert_sorted)
  qed
qed

lemma sorted_js_sort:
  "consistent_comparator cmp \<Longrightarrow> sorted_wrt (\<lambda>a b. cmp a b \<le> 0) (js_sort cmp xs)"
  by (induction xs) (auto simp: js_sort_def sorted_insert_sorted)

lemma js_sort_sorted_id:
  "sorted_wrt (\<lambda>a b. cmp a b \<le> 0) xs \<Longrightarrow> js_sort cmp xs = xs"
proof (induction xs)
  case Nil
  show ?case by (simp add: js_sort_def)
next
  case (Cons x xs)
  then have "js_sort cmp xs = xs" by simp
  then have "js_sort cmp (x # xs) = insert_sorted cmp x xs"
    by (simp add: js_sort_def)
  also have "\<dots> = x # xs"
    using Cons.prems by (cases xs) auto
  finally show ?case .
qed


lemma consistent_refl: "consistent_comparator cmp \<Longrightarrow> cmp a a = 0"
proof -
  assume c: "consistent_comparator cmp"
  then have "(cmp a a < 0) = (0 < cmp a a)" unfolding consistent_comparator_def by blast
  then show ?thesis by linarith
qed

lemma consistent_eq_sym: "consistent_comparator cmp \<Longrightarrow> cmp a b = 0 \<Longrightarrow> cmp b a = 0"
proof -
  assume c: "consistent_comparator cmp" and e: "cmp a b = 0"
  from c have "(cmp a b < 0) = (0 < cmp b a)" "(cmp b a < 0) = (0 < cmp a b)"
    unfolding consistent_comparator_def by blast+
  with e show ?thesis by linarith
qed

lemma compare_rows_le_iff: "compare_rows lc a b \<le> 0 \<longleftrightarrow> row_order lc a b"
  unfolding compare_rows_def row_order_def sort_time_def Let_def
  by (cases "dateObj a"; cases "dateObj b") (simp_all, linarith+)


lemma consistent_total: "consistent_comparator cmp \<Longrightarrow> cmp a b \<le> 0 \<or> cmp b a \<le> 0"
  using consistent_flip [of cmp a b] by linarith

lemma consistent_ge: "consistent_comparator cmp \<Longrightarrow> 0 \<le> cmp a b \<Longrightarrow> cmp b a \<le> 0"
  using consistent_flip [of cmp a b] consistent_eq_sym [of cmp a b] by linarith

lemma consistent_lt_le:
  assumes c: "consistent_comparator cmp" and "cmp a b < 0" "cmp b c \<le> 0"
  shows "cmp a c < 0"
proof (rule ccontr)
  assume "\<not> cmp a c < 0"
  then have "cmp c a \<le> 0" using consistent_ge [OF c] by simp
  with assms(3) have "cmp b a \<le> 0" using consistent_trans [OF c] by blast
  moreover from assms(2) c have "0 < cmp b a" unfolding consistent_comparator_def by blast
  ultimately show False by simp
qed

lemma consistent_le_lt:
  assumes c: "consistent_comparator cmp" and "cmp a b \<le> 0" "cmp b c < 0"
  shows "cmp a c < 0"
proof (rule ccontr)
  assume "\<not> cmp a c < 0"
  then have "cmp c a \<le> 0" using consistent_ge [OF c] by simp
  with assms(2) have "cmp c b \<le> 0" using consistent_trans [OF c] by blast
  moreover from assms(3) c have "0 < cmp c b" unfolding consistent_comparator_def by blast
  ultimately show False by simp
qed

lemma consistent_eq_trans:
  assumes c: "consistent_comparator cmp" and "cmp a b = 0" "cmp b c = 0"
  shows "cmp a c = 0"
proof -
  have "cmp a c \<le> 0" using consistent_trans [OF c, of a b c] assms by simp
  moreover have "cmp c a \<le> 0"
    using consistent_trans [OF c, of c b a] consistent_eq_sym [OF c] assms by simp
  moreover have "(cmp a c < 0) = (0 < cmp c a)" using c unfolding consistent_comparator_def by blast
  ultimately show ?thesis by linarith
qed

lemma row_order_trans:
  assumes c: "consistent_comparator lc" and ab: "row_order lc a b" and bd: "row_order lc b d"
  shows "row_order lc a d"
proof -
  consider "sort_time d < sort_time a"
    | "sort_time a = sort_time b" "sort_time b = sort_time d"
    using ab bd unfolding row_order_def by linarith
  then show ?thesis
  proof cases
    case 1
    then show ?thesis by (simp add: row_order_def)
  next
    case 2
    from ab 2 have sab: "lc (series a) (series b) < 0 \<or>
        (lc (series a) (series b) = 0 \<and> lc (title a) (title b) \<le> 0)"
      by (simp add: row_order_def)
    from bd 2 have sbd: "lc (series b) (series d) < 0 \<or>
        (lc (series b) (series d) = 0 \<and> lc (title b) (title d) \<le> 0)"
      by (simp add: row_order_def)
    have "lc (series a) (series d) < 0 \<or>
        (lc (series a) (series d) = 0 \<and> lc (title a) (title d) \<le> 0)"
    proof (cases "lc (series a) (series b) < 0")
      case True
      moreover from sbd have "lc (series b) (series d) \<le> 0" by linarith
      ultimately show ?thesis using consistent_lt_le [OF c] by blast
    next
      case ab0: False
      show ?thesis
      proof (cases "lc (series b) (series d) < 0")
        case True
        moreover from sab ab0 have "lc (series a) (series b) \<le> 0" by linarith
        ultimately show ?thesis using consistent_le_lt [OF c] by blast
      next
        case False
        with sab sbd ab0 have "lc (series a) (series d) = 0" "lc (title a) (title d) \<le> 0"
          using consistent_eq_trans [OF c] consistent_trans [OF c] by blast+
        then show ?thesis by simp
      qed
    qed
    with 2 show ?thesis by (simp add: row_order_def)
  qed
qed

lemma compare_rows_flip:
  assumes c: "consistent_comparator lc"
  shows "(compare_rows lc a b < 0) = (0 < compare_rows lc b a)"
proof (cases "sort_time a = sort_time b")
  case False
  then show ?thesis
    unfolding compare_rows_def Let_def sort_time_def by auto
next
  case True
  have s: "(lc (series a) (series b) < 0) = (0 < lc (series b) (series a))"
    "(lc (series b) (series a) < 0) = (0 < lc (series a) (series b))"
    and t: "(lc (title a) (title b) < 0) = (0 < lc (title b) (title a))"
    using c unfolding consistent_comparator_def by blast+
  show ?thesis
  proof (cases "lc (series a) (series b) = 0")
    case True
    with s have "lc (series b) (series a) = 0" by linarith
    with True \<open>sort_time a = sort_time b\<close> t show ?thesis
      unfolding compare_rows_def Let_def sort_time_def by simp
  next
    case False
    with s have "lc (series b) (series a) \<noteq> 0" by linarith
    with False \<open>sort_time a = sort_time b\<close> s show ?thesis
      unfolding compare_rows_def Let_def sort_time_def by simp
  qed
qed

lemma compare_rows_consistent:
  assumes c: "consistent_comparator lc"
  shows "consistent_comparator (compare_rows lc)"
  unfolding consistent_comparator_def
  using compare_rows_flip [OF c] row_order_trans [OF c]
  by (auto simp: compare_rows_le_iff)

lemma codeunit_compare_flip: "(codeunit_compare a b < 0) = (0 < codeunit_compare b a)"
proof (induction a b rule: codeunit_compare.induct)
  case (4 x xs y ys)
  then show ?case by (cases "(of_char x :: nat) < of_char y"; cases "(of_char y :: nat) < of_char x") simp_all
qed simp_all

lemma codeunit_compare_trans:
  "codeunit_compare a b \<le> 0 \<Longrightarrow> codeunit_compare b d \<le> 0 \<Longrightarrow> codeunit_compare a d \<le> 0"
proof (induction a b arbitrary: d rule: codeunit_compare.induct)
  case 1
  then show ?case by simp
next
  case (2 y ys)
  then show ?case by (cases d) simp_all
next
  case (3 x xs)
  then show ?case by simp
next
  case (4 x xs y ys)
  show ?case
  proof (cases d)
    case Nil
    with 4 show ?thesis by simp
  next
    case (Cons z zs)
    from "4.prems"(1) have xy: "(of_char x :: nat) \<le> of_char y"
      by (simp split: if_splits)
    from "4.prems"(2) Cons have yz: "(of_char y :: nat) \<le> of_char z"
      by (simp split: if_splits)
    show ?thesis
    proof (cases "(of_char x :: nat) < of_char z")
      case True
      then show ?thesis using Cons by simp
    next
      case False
      with xy yz have e: "(of_char x :: nat) = of_char y" "(of_char y :: nat) = of_char z"
        by linarith+
      with "4.prems" Cons have "codeunit_compare xs ys \<le> 0" "codeunit_compare ys zs \<le> 0"
        by simp_all
      with "4.IH" e have "codeunit_compare xs zs \<le> 0" by simp
      with e Cons show ?thesis by simp
    qed
  qed
qed

lemma codeunit_compare_consistent: "consistent_comparator codeunit_compare"
  unfolding consistent_comparator_def
  using codeunit_compare_flip codeunit_compare_trans by blast

section \<open>The sample rows\<close>

lemma score_digits:
  "score (Number (Some ''3'')) = Some (Fin 3)" "score (Number (Some ''4'')) = Some (Fin 4)"
  "score (Number (Some ''5'')) = Some (Fin 5)"
  by (simp_all add: num_eval)

lemma sample_normalized:
  "map_rows (normalizeRow Date_parse) SAMPLE_RECORDS = Inr (sample_rows Date_parse)"
  by (simp add: SAMPLE_RECORDS_def sample_rows_def normalizeRow_eq js_bind_def js_or_def
      truthy_def or_empty_def nullish_simps score_digits str_eval)

section \<open>Properties of the filtered view\<close>

lemma cond_filter: "(if b then filter P xs else xs) = filter (\<lambda>x. b \<longrightarrow> P x) xs"
  by simp

lemma filtered_eq:
  "filtered lc cutoff fs rows' = js_sort (compare_rows lc) (filter (passes_filters cutoff fs) rows')"
proof -
  have p: "passes_filters cutoff fs =
      (\<lambda>x. (((selectedSeries fs \<noteq> [] \<longrightarrow> series x \<in> set (selectedSeries fs)) \<and>
             (selectedTags fs \<noteq> [] \<longrightarrow> list_ex (\<lambda>t. t \<in> set (selectedTags fs)) (tags x))) \<and>
            (last30Only fs \<longrightarrow> (case dateObj x of None \<Rightarrow> False | Some t \<Rightarrow> cutoff \<le> t))) \<and>
           (trim (search fs) \<noteq> [] \<longrightarrow> matches_search (toLowerCase (trim (search fs))) x))"
    by (rule ext) (auto simp: passes_filters_def list_ex_iff split: option.splits)
  show ?thesis
    unfolding p filtered_def Let_def cond_filter filter_filter by (simp only: conj_assoc)
qed

lemma set_filtered:
  "set (filtered lc cutoff fs rows') = {r \<in> set rows'. passes_filters cutoff fs r}"
  by (simp add: filtered_eq set_js_sort)

lemma sorted_filtered:
  "consistent_comparator lc \<Longrightarrow> sorted_wrt (row_order lc) (filtered lc cutoff fs rows')"
  using sorted_js_sort [OF compare_rows_consistent, of lc]
  by (simp add: filtered_eq compare_rows_le_iff)

lemma filtered_idem:
  assumes "consistent_comparator lc"
  shows "filtered lc cutoff fs (filtered lc cutoff fs rows') = filtered lc cutoff fs rows'"
proof -
  let ?ys = "filtered lc cutoff fs rows'"
  have "filter (passes_filters cutoff fs) ?ys = ?ys"
    by (rule filter_True) (simp add: set_filtered)
  then have "filtered lc cutoff fs ?ys = js_sort (compare_rows lc) ?ys"
    by (simp add: filtered_eq [of lc cutoff fs ?ys])
  also have "\<dots> = ?ys"
    using sorted_filtered [OF assms, of cutoff fs rows']
    by (intro js_sort_sorted_id) (simp add: compare_rows_le_iff)
  finally show ?thesis .
qed

lemma str_includes_iff: "str_includes s q \<longleftrightarrow> (\<exists>u w. s = u @ q @ w)"
proof (induction s)
  case Nil
  show ?case by auto
next
  case (Cons c cs)
  show ?case
  proof
    assume "str_includes (c # cs) q"
    then consider "prefix q (c # cs)" | "str_includes cs q" by auto
    then show "\<exists>u w. c # cs = u @ q @ w"
    proof cases
      case 1
      then obtain w where "c # cs = q @ w" by (auto simp: prefix_def)
      then have "c # cs = [] @ q @ w" by simp
      then show ?thesis by blast
    next
      case 2
      with Cons obtain u w where "cs = u @ q @ w" by blast
      then have "c # cs = (c # u) @ q @ w" by simp
      then show ?thesis by blast
    qed
  next
    assume "\<exists>u w. c # cs = u @ q @ w"
    then obtain u w where uw: "c # cs = u @ q @ w" by blast
    show "str_includes (c # cs) q"
    proof (cases u)
      case Nil
      with uw have "prefix q (c # cs)" by (simp add: prefix_def)
      then show ?thesis by simp
    next
      case (Cons d u')
      with uw have "cs = u' @ q @ w" by simp
      with Cons.IH show ?thesis by auto
    qed
  qed
qed

lemma includes_lower_iff:
  "str_includes (toLowerCase s) (toLowerCase q) \<longleftrightarrow> contains_ignoring_case s q"
proof
  assume "str_includes (toLowerCase s) (toLowerCase q)"
  then obtain u' w' where "map lowerChar s = u' @ (map lowerChar q @ w')"
    by (auto simp: str_includes_iff toLowerCase_def)
  then obtain u vw where 1: "s = u @ vw" "map lowerChar vw = map lowerChar q @ w'"
    by (metis map_eq_append_conv)
  then obtain v w where "vw = v @ w" "map lowerChar v = map lowerChar q"
    by (metis map_eq_append_conv)
  with 1 show "contains_ignoring_case s q"
    by (auto simp: contains_ignoring_case_def toLowerCase_def)
next
  assume "contains_ignoring_case s q"
  then obtain u v w where "s = u @ v @ w" "toLowerCase v = toLowerCase q"
    by (auto simp: contains_ignoring_case_def)
  then have "toLowerCase s = toLowerCase u @ toLowerCase q @ toLowerCase w"
    by (simp add: toLowerCase_def)
  then show "str_includes (toLowerCase s) (toLowerCase q)"
    unfolding str_includes_iff by blast
qed

section \<open>Examples\<close>

lemma iso_Date_parse_examples:
  "iso_Date_parse ''1969-07-20'' = Some (- 14256000000)"
  "iso_Date_parse ''2025-07-26'' = Some 1753488000000"
  "iso_Date_parse ''2025-08-10'' = Some 1754784000000"
  "iso_Date_parse ''2025-08-20'' = Some 1755648000000"
  "iso_Date_parse ''2025-08-05'' = Some 1754352000000"
  "iso_Date_parse [] = None"
  by (simp_all add: iso_Date_parse_def parseDigits_def digitValue_def days_in_month_def
      days_from_civil_def Let_def)

lemma example_rows_normalized:
  "normalizeRow iso_Date_parse
     (Map.empty(''series'' \<mapsto> ''Archive'', ''title'' \<mapsto> ''Moon landing'', ''date'' \<mapsto> ''1969-07-20''))
   = Inr moon_row"
  "normalizeRow iso_Date_parse (Map.empty(''series'' \<mapsto> ''Archive'', ''title'' \<mapsto> ''Undated''))
   = Inr undated_row"
  by (simp_all add: normalizeRow_eq moon_row_def undated_row_def js_or_def truthy_def or_empty_def
      nullish_simps score_examples str_eval iso_Date_parse_examples)

lemma filtered_examples:
  "filtered codeunit_compare 0 no_filter [moon_row, undated_row] = [undated_row, moon_row]"
  by (simp add: filtered_def no_filter_def js_sort_def compare_rows_def moon_row_def
      undated_row_def trim_def)

lemma filtered_sample:
  "filtered codeunit_compare 0 no_filter (sample_rows iso_Date_parse) =
     [sample_rows iso_Date_parse ! 2, sample_rows iso_Date_parse ! 1,
      sample_rows iso_Date_parse ! 3, sample_rows iso_Date_parse ! 0]"
  by (simp add: filtered_def no_filter_def js_sort_def compare_rows_def sample_rows_def
      trim_def iso_Date_parse_examples)

lemma filtered_sample_tags:
  "filtered codeunit_compare 1754000000000
     \<lparr> selectedSeries = [], selectedTags = [''insurance'', ''grid'', ''nuclear''],
       last30Only = True, search = '' e '' \<rparr>
     (sample_rows iso_Date_parse) =
   [sample_rows iso_Date_parse ! 2, sample_rows iso_Date_parse ! 1]"
  by (simp add: filtered_def js_sort_def compare_rows_def sample_rows_def matches_search_def
      str_eval iso_Date_parse_examples)

lemma js_sort_single: "js_sort cmp [x] = [x]"
  by (simp add: js_sort_def)

lemma toLowerCase_Nil_iff: "toLowerCase s = [] \<longleftrightarrow> s = []"
  by (simp add: toLowerCase_def)

lemma matches_search_iff:
  "matches_search (toLowerCase q) r \<longleftrightarrow>
     contains_ignoring_case (title r) q \<or> contains_ignoring_case (series r) q \<or>
     contains_ignoring_case (join '','' (tags r)) q \<or> contains_ignoring_case (summary r) q"
  by (simp add: matches_search_def includes_lower_iff)

lemma sample_matches_insurance:
  "filter (matches_search ''insurance'') (sample_rows Date_parse) = [sample_rows Date_parse ! 1]"
  by (simp add: sample_rows_def matches_search_def toLowerCase_def lowerChar_def)

lemma passes_search_only:
  assumes "selectedSeries fs = []" "selectedTags fs = []" "\<not> last30Only fs" "trim (search fs) \<noteq> []"
  shows "passes_filters cutoff fs = matches_search (toLowerCase (trim (search fs)))"
  using assms by (auto simp: passes_filters_def)

lemma passes_without_search:
  "passes_filters cutoff fs r \<longleftrightarrow>
     passes_filters cutoff (fs\<lparr> search := [] \<rparr>) r \<and>
     (trim (search fs) \<noteq> [] \<longrightarrow> matches_search (toLowerCase (trim (search fs))) r)"
  by (auto simp: passes_filters_def trim_def)


section \<open>Properties of the multi-select widget\<close>

lemma foldl_Set_add_set: "set (foldl Set_add acc xs) = set acc \<union> set xs"
  by (induction xs arbitrary: acc) (auto simp: Set_add_def)

lemma foldl_Set_add_distinct: "distinct acc \<Longrightarrow> distinct (foldl Set_add acc xs)"
  by (induction xs arbitrary: acc) (auto simp: Set_add_def)

lemma foldl_Set_add_id: "distinct (acc @ xs) \<Longrightarrow> foldl Set_add acc xs = acc @ xs"
  by (induction xs arbitrary: acc) (auto simp: Set_add_def)

lemma set_new_Set: "set (new_Set xs) = set xs"
  by (simp add: new_Set_def foldl_Set_add_set)

lemma distinct_new_Set: "distinct (new_Set xs)"
  by (simp add: new_Set_def foldl_Set_add_distinct)

lemma new_Set_distinct_id: "distinct xs \<Longrightarrow> new_Set xs = xs"
  using foldl_Set_add_id [of "[]" xs] by (simp add: new_Set_def)

lemma toggle_absent:
  "item \<notin> set (tempSelected s) \<Longrightarrow>
   toggle item s = s\<lparr> tempSelected := new_Set (tempSelected s) @ [item] \<rparr>"
  by (simp add: toggle_def Let_def set_new_Set Set_add_def)

lemma selected_toggle: "selected (toggle item s) = selected s"
  by (simp add: toggle_def Let_def)

lemma step_changes_selected: "selected (ms_step ev s) \<noteq> selected s \<Longrightarrow> commits ev"
  by (cases ev)
     (auto simp: ms_step_def commits_def openMenu_def selected_toggle split: if_splits)

lemma run_Nil: "ms_run [] s = s"
  by (simp add: ms_run_def)

lemma run_Cons: "ms_run (ev # evs) s = ms_run evs (ms_step ev s)"
  by (simp add: ms_run_def)

lemma run_without_commit:
  "\<forall>ev\<in>set evs. \<not> commits ev \<Longrightarrow> selected (ms_run evs s) = selected s"
proof (induction evs arbitrary: s)
  case Nil
  show ?case by (simp add: run_Nil)
next
  case (Cons ev evs)
  then have "selected (ms_run evs (ms_step ev s)) = selected (ms_step ev s)" by simp
  moreover have "selected (ms_step ev s) = selected s"
    using Cons.prems step_changes_selected [of ev s] by auto
  ultimately show ?case by (simp add: run_Cons)
qed

lemma agree_step:
  "agree_but_hidden s1 s2 \<Longrightarrow> agree_but_hidden (ms_step ev s1) (ms_step ev s2)"
  by (cases ev)
     (auto simp: agree_but_hidden_def ms_step_def openMenu_def toggle_def applyChanges_def
        clearAll_def Let_def)

lemma agree_run:
  "agree_but_hidden s1 s2 \<Longrightarrow> agree_but_hidden (ms_run evs s1) (ms_run evs s2)"
  by (induction evs arbitrary: s1 s2) (auto simp: run_Nil run_Cons agree_step)

lemma dismiss_agree:
  assumes "d = ClickOutside \<or> d = PressKey ''Escape''"
  shows "agree_but_hidden (ms_step d (s\<lparr> tempSelected := t \<rparr>)) (ms_step d s)"
  using assms by (auto simp: agree_but_hidden_def ms_step_def)

lemma open_toggle_toggle:
  assumes "\<not> menu_open s" "a \<noteq> b" "a \<notin> set (selected s)" "b \<notin> set (selected s)"
  shows "ms_run [ClickTrigger, ToggleOption a, ToggleOption b] s =
         s\<lparr> tempSelected := new_Set (selected s) @ [a, b], menu_open := True \<rparr>"
proof -
  let ?st = "new_Set (selected s)"
  have 1: "ms_step ClickTrigger s = s\<lparr> tempSelected := selected s, menu_open := True \<rparr>"
    using assms(1) by (simp add: ms_step_def openMenu_def)
  have 2: "ms_step (ToggleOption a) (s\<lparr> tempSelected := selected s, menu_open := True \<rparr>) =
      s\<lparr> tempSelected := ?st @ [a], menu_open := True \<rparr>"
    using assms(3) by (simp add: ms_step_def toggle_absent)
  have d: "distinct (?st @ [a])"
    using assms(3) by (simp add: distinct_new_Set set_new_Set)
  have 3: "ms_step (ToggleOption b) (s\<lparr> tempSelected := ?st @ [a], menu_open := True \<rparr>) =
      s\<lparr> tempSelected := ?st @ [a, b], menu_open := True \<rparr>"
    using assms(2,4) by (simp add: ms_step_def toggle_absent set_new_Set new_Set_distinct_id [OF d])
  show ?thesis
    by (simp add: run_Cons run_Nil 1 2 3)
qed


section \<open>The sort, the idempotence, the search and the cap\<close>

text \<open>
  C3 (as the code has it). The filtered list is sorted by date descending, then series
  ascending, then title ascending, the texts compared by \<open>localeCompare\<close>. A row with a
  null date takes the time value 0, the epoch, as its date key, not the earliest
  possible one: it comes after every row dated after the epoch and before every row
  dated before it.
\<close>

theorem filtered_sorted_null_date_as_epoch:
  assumes "consistent_comparator localeCompare"
  shows "sorted_wrt (row_order localeCompare) (filtered localeCompare cutoff fs rows') \<and>
         (\<forall>i j t. i < j \<and> j < length (filtered localeCompare cutoff fs rows') \<and>
            dateObj (filtered localeCompare cutoff fs rows' ! i) = None \<and>
            dateObj (filtered localeCompare cutoff fs rows' ! j) = Some t \<longrightarrow> t \<le> 0) \<and>
         (\<forall>i j t. i < j \<and> j < length (filtered localeCompare cutoff fs rows') \<and>
            dateObj (filtered localeCompare cutoff fs rows' ! i) = Some t \<and>
            dateObj (filtered localeCompare cutoff fs rows' ! j) = None \<longrightarrow> 0 \<le> t)"
proof -
  let ?res = "filtered localeCompare cutoff fs rows'"
  have s: "sorted_wrt (row_order localeCompare) ?res"
    by (rule sorted_filtered [OF assms])
  have o: "sort_time (?res ! j) \<le> sort_time (?res ! i)" if "i < j" "j < length ?res" for i j
  proof -
    from s that have "row_order localeCompare (?res ! i) (?res ! j)"
      by (simp add: sorted_wrt_iff_nth_less)
    then show ?thesis by (auto simp: row_order_def)
  qed
  have 1: "t \<le> 0"
    if "i < j \<and> j < length ?res \<and> dateObj (?res ! i) = None \<and> dateObj (?res ! j) = Some t" for i j t
    using o [of i j] that by (simp add: sort_time_def)
  have 2: "0 \<le> t"
    if "i < j \<and> j < length ?res \<and> dateObj (?res ! i) = Some t \<and> dateObj (?res ! j) = None" for i j t
    using o [of i j] that by (simp add: sort_time_def)
  from s 1 2 show ?thesis by blast
qed

theorem filtered_sorted_null_date_as_epoch_witness:
  "sorted_wrt (row_order codeunit_compare)
     (filtered codeunit_compare 0 no_filter (sample_rows iso_Date_parse)) \<and>
   filtered codeunit_compare 0 no_filter (sample_rows iso_Date_parse) =
     [sample_rows iso_Date_parse ! 2, sample_rows iso_Date_parse ! 1,
      sample_rows iso_Date_parse ! 3, sample_rows iso_Date_parse ! 0]"
  using filtered_sorted_null_date_as_epoch [OF codeunit_compare_consistent, of 0 no_filter
      "sample_rows iso_Date_parse"]
    filtered_sample
  by blast

theorem undated_row_before_dated_row:
  "filtered codeunit_compare 0 no_filter [moon_row, undated_row] = [undated_row, moon_row] \<and>
   dateObj undated_row = None \<and> dateObj moon_row = Some (- 14256000000)"
  by (simp add: filtered_examples) (simp add: moon_row_def undated_row_def)

text \<open>
  C6. Applying the filter-and-sort chain to its own result, with the same filter state
  and cutoff, gives that result again.
\<close>

theorem filtered_idempotent:
  assumes "consistent_comparator localeCompare"
  shows "filtered localeCompare cutoff fs (filtered localeCompare cutoff fs rows')
         = filtered localeCompare cutoff fs rows'"
  by (rule filtered_idem [OF assms])

theorem filtered_idempotent_witness:
  "filtered codeunit_compare 1754000000000
     \<lparr> selectedSeries = [], selectedTags = [''insurance'', ''grid'', ''nuclear''],
       last30Only = True, search = '' e '' \<rparr>
     (filtered codeunit_compare 1754000000000
        \<lparr> selectedSeries = [], selectedTags = [''insurance'', ''grid'', ''nuclear''],
          last30Only = True, search = '' e '' \<rparr>
        (sample_rows iso_Date_parse))
   = [sample_rows iso_Date_parse ! 2, sample_rows iso_Date_parse ! 1]"
  using filtered_idempotent [OF codeunit_compare_consistent, of 1754000000000
      "\<lparr> selectedSeries = [], selectedTags = [''insurance'', ''grid'', ''nuclear''],
         last30Only = True, search = '' e '' \<rparr>"
      "sample_rows iso_Date_parse"]
  by (simp only: filtered_sample_tags)

text \<open>
  C7. With a search text that is not empty after trimming, a row passes the search
  filter if and only if its title, its series, its tags joined by commas or its summary
  contains the trimmed text up to the case of the letters. Searching "insurance", in any
  casing and with nothing else set, in the normalized rows of the sample gives exactly
  the Climate One row.
\<close>

theorem search_filter_matches:
  assumes "trim (search fs) \<noteq> []"
  shows "(r \<in> set (filtered localeCompare cutoff fs rows') \<longleftrightarrow>
            r \<in> set (filtered localeCompare cutoff (fs\<lparr> search := [] \<rparr>) rows') \<and>
            (contains_ignoring_case (title r) (trim (search fs)) \<or>
             contains_ignoring_case (series r) (trim (search fs)) \<or>
             contains_ignoring_case (join '','' (tags r)) (trim (search fs)) \<or>
             contains_ignoring_case (summary r) (trim (search fs)))) \<and>
         map_rows (normalizeRow Date_parse) SAMPLE_RECORDS = Inr (sample_rows Date_parse) \<and>
         series (sample_rows Date_parse ! 1) = ''Climate One'' \<and>
         (toLowerCase (trim (search fs)) = ''insurance'' \<and> selectedSeries fs = [] \<and>
          selectedTags fs = [] \<and> \<not> last30Only fs \<longrightarrow>
            filtered localeCompare cutoff fs (sample_rows Date_parse) = [sample_rows Date_parse ! 1])"
proof (intro conjI impI)
  show "r \<in> set (filtered localeCompare cutoff fs rows') \<longleftrightarrow>
            r \<in> set (filtered localeCompare cutoff (fs\<lparr> search := [] \<rparr>) rows') \<and>
            (contains_ignoring_case (title r) (trim (search fs)) \<or>
             contains_ignoring_case (series r) (trim (search fs)) \<or>
             contains_ignoring_case (join '','' (tags r)) (trim (search fs)) \<or>
             contains_ignoring_case (summary r) (trim (search fs)))"
    using assms passes_without_search [of cutoff fs r]
    by (auto simp: set_filtered matches_search_iff)
  show "map_rows (normalizeRow Date_parse) SAMPLE_RECORDS = Inr (sample_rows Date_parse)"
    by (rule sample_normalized)
  show "series (sample_rows Date_parse ! 1) = ''Climate One''"
    by (simp add: sample_rows_def)
next
  assume a: "toLowerCase (trim (search fs)) = ''insurance'' \<and> selectedSeries fs = [] \<and>
          selectedTags fs = [] \<and> \<not> last30Only fs"
  then have p: "passes_filters cutoff fs = matches_search ''insurance''"
    using passes_search_only [of fs cutoff] assms by simp
  show "filtered localeCompare cutoff fs (sample_rows Date_parse) = [sample_rows Date_parse ! 1]"
    unfolding filtered_eq p sample_matches_insurance by (rule js_sort_single)
qed

theorem search_filter_matches_witness:
  "filtered codeunit_compare 0 (no_filter\<lparr> search := ''  Insurance '' \<rparr>) (sample_rows iso_Date_parse)
   = [sample_rows iso_Date_parse ! 1] \<and>
   title (sample_rows iso_Date_parse ! 1) = ''Insurance in the Hot Zone'' \<and>
   series (sample_rows iso_Date_parse ! 1) = ''Climate One''"
proof -
  let ?fs = "no_filter\<lparr> search := ''  Insurance '' \<rparr>"
  have t: "trim (search ?fs) = ''Insurance''"
    by (simp add: trim_def isWhiteSpace_def)
  then have ne: "trim (search ?fs) \<noteq> []" by simp
  have "toLowerCase ''Insurance'' = ''insurance''"
    by code_simp
  then have l: "toLowerCase (trim (search ?fs)) = ''insurance'' \<and> selectedSeries ?fs = [] \<and>
          selectedTags ?fs = [] \<and> \<not> last30Only ?fs"
    unfolding t by (simp add: no_filter_def)
  note th = search_filter_matches [OF ne, of _ codeunit_compare 0 _ iso_Date_parse]
  from th l have "filtered codeunit_compare 0 ?fs (sample_rows iso_Date_parse)
      = [sample_rows iso_Date_parse ! 1]"
    by blast
  then show ?thesis by (simp add: sample_rows_def)
qed

text \<open>
  C9. A max-results value of 0 leaves the filtered list whole, as the value -1 of "All"
  does; a positive value cuts the list to its first elements, that many.
\<close>

theorem limited_zero_is_all:
  "limited fl (Fin 0) = fl \<and> limited fl (Fin (- 1)) = fl \<and>
   (\<forall>n. 0 < n \<longrightarrow> limited fl (Fin (of_int n)) = take (nat n) fl) \<and>
   (\<forall>n. n < - 1 \<longrightarrow> limited fl (Fin (of_int n)) = take (length fl - nat (- n)) fl)"
proof (intro conjI allI impI)
  show "limited fl (Fin 0) = fl" "limited fl (Fin (- 1)) = fl"
    by (simp_all add: limited_def)
next
  fix n :: int
  assume "0 < n"
  then show "limited fl (Fin (of_int n)) = take (nat n) fl"
    by (simp add: limited_def slice_from_0_def Let_def min_def)
next
  fix n :: int
  assume "n < - 1"
  then have "limited fl (Fin (of_int n)) = take (nat (max (int (length fl) + n) 0)) fl"
    by (simp add: limited_def slice_from_0_def Let_def)
  also have "nat (max (int (length fl) + n) 0) = length fl - nat (- n)"
    using \<open>n < - 1\<close> by (simp add: max_def) linarith
  finally show "limited fl (Fin (of_int n)) = take (length fl - nat (- n)) fl" .
qed

theorem limited_zero_is_all_witness:
  "limited [moon_row, undated_row] (Fin 0) = [moon_row, undated_row] \<and>
   limited [moon_row, undated_row] (Fin (- 1)) = [moon_row, undated_row] \<and>
   limited [moon_row, undated_row] (Fin 1) = [moon_row]"
proof -
  note th = limited_zero_is_all [of "[moon_row, undated_row]"]
  from th have "(0::int) < 1 \<longrightarrow> limited [moon_row, undated_row] (Fin (of_int 1)) = take (nat 1) [moon_row, undated_row]"
    by blast
  then have "limited [moon_row, undated_row] (Fin 1) = [moon_row]" by simp
  with th show ?thesis by blast
qed


text \<open>
  C2. The owner's selection changes only at Clear, Apply or Done, never at a toggle or
  at any sequence of other events. A click outside or Escape closes the menu without
  committing, and discards the provisional selection: opening again starts from the
  committed one, and nothing that follows depends on what the provisional selection was.
  Opening, toggling two different options that are not selected, and clicking outside
  leaves the committed selection as it was; ending with Done instead commits the two
  options, added in that order to the previous selection (with an empty previous
  selection, exactly the two).
\<close>

theorem multiselect_commits_only_on_clear_apply_done:
  "(selected (ms_step ev s) \<noteq> selected s \<longrightarrow> ev = ClickClear \<or> ev = ClickApply \<or> ev = ClickDone) \<and>
   selected (ms_step (ToggleOption item) s) = selected s \<and>
   ((\<forall>ev\<in>set evs. ev \<noteq> ClickClear \<and> ev \<noteq> ClickApply \<and> ev \<noteq> ClickDone) \<longrightarrow>
      selected (ms_run evs s) = selected s) \<and>
   (d = ClickOutside \<or> d = PressKey ''Escape'' \<longrightarrow>
      \<not> menu_open (ms_step d s) \<and> selected (ms_step d s) = selected s \<and>
      tempSelected (ms_step ClickTrigger (ms_step d s)) = selected s \<and>
      selected (ms_run evs (ms_step d (s\<lparr> tempSelected := t \<rparr>))) =
        selected (ms_run evs (ms_step d s))) \<and>
   (\<not> menu_open s \<and> a \<noteq> b \<and> a \<notin> set (selected s) \<and> b \<notin> set (selected s) \<longrightarrow>
      selected (ms_run [ClickTrigger, ToggleOption a, ToggleOption b, ClickOutside] s) = selected s \<and>
      selected (ms_run [ClickTrigger, ToggleOption a, ToggleOption b, ClickDone] s) =
        new_Set (selected s) @ [a, b] \<and>
      set (selected (ms_run [ClickTrigger, ToggleOption a, ToggleOption b, ClickDone] s)) =
        set (selected s) \<union> {a, b} \<and>
      (selected s = [] \<longrightarrow>
         selected (ms_run [ClickTrigger, ToggleOption a, ToggleOption b, ClickDone] s) = [a, b]))"
proof (intro conjI impI)
  assume "selected (ms_step ev s) \<noteq> selected s"
  then show "ev = ClickClear \<or> ev = ClickApply \<or> ev = ClickDone"
    using step_changes_selected [of ev s] by (simp add: commits_def)
next
  show "selected (ms_step (ToggleOption item) s) = selected s"
    by (simp add: ms_step_def selected_toggle)
next
  assume "\<forall>ev\<in>set evs. ev \<noteq> ClickClear \<and> ev \<noteq> ClickApply \<and> ev \<noteq> ClickDone"
  then show "selected (ms_run evs s) = selected s"
    by (intro run_without_commit) (simp add: commits_def)
next
  assume d: "d = ClickOutside \<or> d = PressKey ''Escape''"
  then show "\<not> menu_open (ms_step d s)" "selected (ms_step d s) = selected s"
    "tempSelected (ms_step ClickTrigger (ms_step d s)) = selected s"
    by (auto simp: ms_step_def openMenu_def)
  show "selected (ms_run evs (ms_step d (s\<lparr> tempSelected := t \<rparr>))) =
        selected (ms_run evs (ms_step d s))"
    using agree_run [OF dismiss_agree [OF d]] by (simp add: agree_but_hidden_def)
next
  assume a: "\<not> menu_open s \<and> a \<noteq> b \<and> a \<notin> set (selected s) \<and> b \<notin> set (selected s)"
  then have r: "ms_run [ClickTrigger, ToggleOption a, ToggleOption b] s =
         s\<lparr> tempSelected := new_Set (selected s) @ [a, b], menu_open := True \<rparr>"
    using open_toggle_toggle by blast
  have o: "ms_run [ClickTrigger, ToggleOption a, ToggleOption b, ev] s =
      ms_step ev (ms_run [ClickTrigger, ToggleOption a, ToggleOption b] s)" for ev
    by (simp add: ms_run_def)
  show 1: "selected (ms_run [ClickTrigger, ToggleOption a, ToggleOption b, ClickOutside] s) = selected s"
    by (simp add: o r ms_step_def)
  show 2: "selected (ms_run [ClickTrigger, ToggleOption a, ToggleOption b, ClickDone] s) =
        new_Set (selected s) @ [a, b]"
    by (simp add: o r ms_step_def applyChanges_def)
  show "set (selected (ms_run [ClickTrigger, ToggleOption a, ToggleOption b, ClickDone] s)) =
        set (selected s) \<union> {a, b}"
    by (auto simp: 2 set_new_Set)
  show "selected (ms_run [ClickTrigger, ToggleOption a, ToggleOption b, ClickDone] s) = [a, b]"
    if "selected s = []"
    using that by (simp add: 2 new_Set_def)
qed

theorem multiselect_commits_only_on_clear_apply_done_witness:
  "selected (ms_run [ClickTrigger, ToggleOption ''Volts'', ToggleOption ''Drilled'', ClickOutside]
     (mounted [])) = [] \<and>
   selected (ms_run [ClickTrigger, ToggleOption ''Volts'', ToggleOption ''Drilled'', ClickDone]
     (mounted [])) = [''Volts'', ''Drilled''] \<and>
   selected (ms_run [ClickTrigger, ToggleOption ''Volts'', ToggleOption ''Drilled'', PressKey ''Escape'',
      ClickTrigger, ClickDone] (mounted [''Climate One''])) = [''Climate One'']"
proof -
  note th = multiselect_commits_only_on_clear_apply_done
  have h: "\<not> menu_open (mounted []) \<and> ''Volts'' \<noteq> ''Drilled'' \<and>
      ''Volts'' \<notin> set (selected (mounted [])) \<and> ''Drilled'' \<notin> set (selected (mounted []))"
    by (simp add: mounted_def)
  have e: "selected (mounted []) = []"
    by (simp add: mounted_def)
  note c = th [where s = "mounted []" and a = "''Volts''" and b = "''Drilled''",
      THEN conjunct2, THEN conjunct2, THEN conjunct2, THEN conjunct2, THEN mp, OF h]
  from c have 1: "selected (ms_run [ClickTrigger, ToggleOption ''Volts'', ToggleOption ''Drilled'', ClickOutside]
     (mounted [])) = []"
    by (simp add: e)
  from c [THEN conjunct2, THEN conjunct2, THEN conjunct2, THEN mp, OF e]
  have 2: "selected (ms_run [ClickTrigger, ToggleOption ''Volts'', ToggleOption ''Drilled'', ClickDone]
     (mounted [])) = [''Volts'', ''Drilled'']" .
  have 3: "selected (ms_run [ClickTrigger, ToggleOption ''Volts'', ToggleOption ''Drilled'', PressKey ''Escape'',
      ClickTrigger, ClickDone] (mounted [''Climate One''])) = [''Climate One'']"
    by (simp add: ms_run_def ms_step_def mounted_def openMenu_def toggle_def new_Set_def Set_add_def
        Set_delete_def applyChanges_def Let_def)
  from 1 2 3 show ?thesis by blast
qed


end
